theory Spec2Isabelle
  imports Main "HOL-Library.Sublist" "HOL-Library.Stream"
begin

section \<open>Strings\<close>

text \<open>
  A Python \<open>str\<close> is a sequence of code points. The model uses \<open>string\<close>, whose
  characters are the code points 0 to 255 (ASCII and Latin-1); on these the three
  string methods the script calls are modelled exactly as CPython computes them.
\<close>

text \<open>\<open>str.isspace\<close> on one character: on code points below 256 CPython answers
  true for 9 to 13, 28 to 32, 133 and 160.\<close>

definition isspace :: "char \<Rightarrow> bool" where
  "isspace c = ((of_char c :: nat) \<in> {9, 10, 11, 12, 13, 28, 29, 30, 31, 32, 133, 160})"

text \<open>\<open>s.strip()\<close>: whitespace removed at both ends.\<close>

definition strip :: "string \<Rightarrow> string" where
  "strip s = rev (dropWhile isspace (rev (dropWhile isspace s)))"

text \<open>\<open>s.lower()\<close>: below 256 the letters with a different lower case are A to Z and
  the Latin-1 capitals 192 to 222 without the multiplication sign 215; each moves up
  by 32.\<close>

definition lower_char :: "char \<Rightarrow> char" where
  "lower_char c =
     (let n = (of_char c :: nat)
      in if (65 \<le> n \<and> n \<le> 90) \<or> (192 \<le> n \<and> n \<le> 214) \<or> (216 \<le> n \<and> n \<le> 222)
         then char_of (n + 32) else c)"

definition lower :: "string \<Rightarrow> string" where
  "lower s = map lower_char s"

text \<open>\<open>s.split("/")\<close>: the pieces between the separators, empty pieces kept. A
  character that is not the separator joins the first piece of the rest; the rest
  always has a first piece (\<open>split_not_Nil\<close>), so the case of no piece is never
  taken.\<close>

fun split :: "string \<Rightarrow> string list" where
  "split [] = [[]]"
| "split (c # cs) =
     (if c = CHR ''/'' then [] # split cs
      else (case split cs of [] \<Rightarrow> [[c]] | y # ys \<Rightarrow> (c # y) # ys))"

text \<open>\<open>"/".join(xs)\<close>.\<close>

fun join :: "string list \<Rightarrow> string" where
  "join [] = []"
| "join [x] = x"
| "join (x # y # ys) = x @ ''/'' @ join (y # ys)"

section \<open>Paths (pathlib, POSIX flavour)\<close>

text \<open>
  A \<open>PurePosixPath\<close> holds a root (\<open>''''\<close> for a relative path, \<open>''/''\<close> or
  \<open>''//''\<close>) and the list of its components after the root.
\<close>

datatype path = Path (root_of: string) (names: "string list")

text \<open>\<open>splitroot\<close> of the POSIX flavour: exactly two leading slashes are kept as the
  root \<open>//\<close>, any other number of leading slashes is the root \<open>/\<close>.\<close>

definition splitroot :: "string \<Rightarrow> string \<times> string" where
  "splitroot part =
     (if part \<noteq> [] \<and> hd part = CHR ''/'' then
        (let stripped_part = dropWhile (\<lambda>c. c = CHR ''/'') part
         in if length part - length stripped_part = 2 then (''//'', stripped_part)
            else (''/'', stripped_part))
      else ('''', part))"

text \<open>\<open>parse_parts\<close> on one string: the part after the root is split at the
  separator and the empty and \<open>.\<close> components are dropped.\<close>

definition parse_parts :: "string \<Rightarrow> path" where
  "parse_parts part =
     (let (root, rel) = splitroot part
      in Path root (filter (\<lambda>x. x \<noteq> [] \<and> x \<noteq> ''.'') (split rel)))"

text \<open>\<open>p / key\<close> (\<open>__truediv__\<close>, through \<open>join_parsed_parts\<close>): a key with a root
  replaces the path, any other key appends its components.\<close>

definition truediv :: "path \<Rightarrow> string \<Rightarrow> path" where
  "truediv p key =
     (let q = parse_parts key
      in if root_of q \<noteq> [] then q else Path (root_of p) (names p @ names q))"

text \<open>\<open>p.parent\<close>: lexical; a path with no component is its own parent.\<close>

definition parent :: "path \<Rightarrow> path" where
  "parent p = Path (root_of p) (butlast (names p))"

section \<open>The element and the parser\<close>

datatype base_folder = Components | Pages

fun folder_name :: "base_folder \<Rightarrow> string" where
  "folder_name Components = ''components''"
| "folder_name Pages = ''pages''"

record element =
  full_path :: path
  name :: string

text \<open>
  \<open>AskParams._parse_as_element\<close>. \<open>SRC_DIR\<close> is \<open>Path(__file__).parent / "src"\<close>,
  known only when the script runs: it is the parameter \<open>src_dir\<close>. The index \<open>[-1]\<close>
  is in range because \<open>split\<close> never returns the empty list.
\<close>

definition parse_as_element :: "path \<Rightarrow> string \<Rightarrow> base_folder \<Rightarrow> element" where
  "parse_as_element src_dir element_str base_folder =
     (let element_as_list = split element_str;
          element_name = last element_as_list;
          relative_path =
            (if length element_as_list > 1 then join (butlast element_as_list)
             else element_name)
      in \<lparr>full_path = truediv (truediv src_dir (folder_name base_folder)) relative_path,
          name = element_name\<rparr>)"

section \<open>The filesystem\<close>

text \<open>
  A filesystem without symbolic links or permissions: a node is a regular file with its
  text or a directory; the nodes are stored under their canonical absolute location (the
  components from the root, none of them \<open>..\<close>); \<open>cwd\<close> is the location of the
  working directory. A file holds the text as it is stored. \<open>read_text\<close> and
  \<open>write_text\<close> are taken on a POSIX system: writing in text mode changes no
  character, reading in text mode turns every line ending into a line feed.
\<close>

datatype node = File string | Dir

datatype os_error = FileNotFoundError | NotADirectoryError | IsADirectoryError | FileExistsError

record filesystem =
  nodes :: "string list \<rightharpoonup> node"
  cwd :: "string list"

text \<open>The kernel's walk along the components of a path: every component is looked up
  in a directory, \<open>..\<close> steps to the parent (the root is its own parent). The result is
  the location the path denotes; whether something is stored there is not checked.\<close>

fun walk :: "(string list \<rightharpoonup> node) \<Rightarrow> string list \<Rightarrow> string list \<Rightarrow> os_error + string list" where
  "walk m cur [] = Inr cur"
| "walk m cur (x # xs) =
     (case m cur of
        None \<Rightarrow> Inl FileNotFoundError
      | Some (File c) \<Rightarrow> Inl NotADirectoryError
      | Some Dir \<Rightarrow> walk m (if x = ''..'' then butlast cur else cur @ [x]) xs)"

definition start :: "filesystem \<Rightarrow> path \<Rightarrow> string list" where
  "start fs p = (if root_of p = [] then cwd fs else [])"

definition locate :: "filesystem \<Rightarrow> path \<Rightarrow> os_error + string list" where
  "locate fs p = walk (nodes fs) (start fs p) (names p)"

definition stat :: "filesystem \<Rightarrow> path \<Rightarrow> os_error + node" where
  "stat fs p =
     (case locate fs p of
        Inl e \<Rightarrow> Inl e
      | Inr k \<Rightarrow> (case nodes fs k of None \<Rightarrow> Inl FileNotFoundError | Some n \<Rightarrow> Inr n))"

text \<open>\<open>Path.is_dir\<close>: false when \<open>stat\<close> fails.\<close>

definition is_dir :: "filesystem \<Rightarrow> path \<Rightarrow> bool" where
  "is_dir fs p = (stat fs p = Inr Dir)"

text \<open>A new entry can only be made under a name: the path has a last component and it
  is not \<open>..\<close>.\<close>

definition names_entry :: "path \<Rightarrow> bool" where
  "names_entry p = (names p \<noteq> [] \<and> last (names p) \<noteq> ''..'')"

text \<open>A step that fails leaves the filesystem as it was when it failed; the error is
  returned together with that filesystem.\<close>

type_synonym result = "(os_error \<times> filesystem) + filesystem"

text \<open>\<open>os.mkdir\<close>.\<close>

definition os_mkdir :: "filesystem \<Rightarrow> path \<Rightarrow> os_error + filesystem" where
  "os_mkdir fs p =
     (case locate fs p of
        Inl e \<Rightarrow> Inl e
      | Inr k \<Rightarrow>
          (case nodes fs k of
             Some n \<Rightarrow> Inl FileExistsError
           | None \<Rightarrow>
               if names_entry p then Inr (fs\<lparr>nodes := (nodes fs)(k \<mapsto> Dir)\<rparr>)
               else Inl FileNotFoundError))"

text \<open>\<open>Path.mkdir(parents=False, exist_ok=True)\<close>: the second call that
  \<open>Path.mkdir(parents=True, exist_ok=True)\<close> makes on itself.\<close>

definition mkdir_exist_ok :: "filesystem \<Rightarrow> path \<Rightarrow> result" where
  "mkdir_exist_ok fs p =
     (case os_mkdir fs p of
        Inr fs' \<Rightarrow> Inr fs'
      | Inl e \<Rightarrow>
          if e = FileNotFoundError then Inl (e, fs)
          else if is_dir fs p then Inr fs else Inl (e, fs))"

text \<open>\<open>Path.mkdir(parents=True, exist_ok=True)\<close>.\<close>

function mkdir_parents :: "filesystem \<Rightarrow> path \<Rightarrow> result" where
  "mkdir_parents fs p =
     (case os_mkdir fs p of
        Inr fs' \<Rightarrow> Inr fs'
      | Inl e \<Rightarrow>
          if e = FileNotFoundError then
            (if parent p = p then Inl (e, fs)
             else (case mkdir_parents fs (parent p) of
                     Inl ef \<Rightarrow> Inl ef
                   | Inr fs1 \<Rightarrow> mkdir_exist_ok fs1 p))
          else if is_dir fs p then Inr fs else Inl (e, fs))"
  by pat_completeness auto
termination
proof (relation "measure (\<lambda>(fs, p). length (names p))")
  show "wf (measure (\<lambda>(fs, p). length (names p)))" by simp
next
  fix fs :: filesystem and p :: path and e :: os_error
  assume "parent p \<noteq> p"
  then have "names p \<noteq> []" by (cases p) (auto simp: parent_def)
  then show "((fs, parent p), (fs, p)) \<in> measure (\<lambda>(fs, p). length (names p))"
    by (simp add: parent_def)
qed

declare mkdir_parents.simps [simp del]

text \<open>Opening a file for writing with \<open>O_CREAT\<close>: the location of the file and its
  text, which is empty when the file is new.\<close>

definition open_creat :: "filesystem \<Rightarrow> path \<Rightarrow> os_error + string list \<times> string" where
  "open_creat fs p =
     (case locate fs p of
        Inl e \<Rightarrow> Inl e
      | Inr k \<Rightarrow>
          (case nodes fs k of
             Some Dir \<Rightarrow> Inl IsADirectoryError
           | Some (File c) \<Rightarrow> Inr (k, c)
           | None \<Rightarrow> if names_entry p then Inr (k, []) else Inl FileNotFoundError))"

text \<open>\<open>Path.touch(exist_ok=True)\<close>: \<open>os.utime\<close> succeeds on anything that exists;
  when it fails the file is opened with \<open>O_CREAT\<close> and closed.\<close>

definition touch :: "filesystem \<Rightarrow> path \<Rightarrow> result" where
  "touch fs p =
     (case stat fs p of
        Inr n \<Rightarrow> Inr fs
      | Inl e0 \<Rightarrow>
          (case open_creat fs p of
             Inl e \<Rightarrow> Inl (e, fs)
           | Inr (k, c) \<Rightarrow> Inr (fs\<lparr>nodes := (nodes fs)(k \<mapsto> File c)\<rparr>)))"

text \<open>Reading in text mode with universal newlines (\<open>newline=None\<close>): a carriage
  return with the line feed after it, and a carriage return alone, are read as one line
  feed.\<close>

fun universal_newlines :: "string \<Rightarrow> string" where
  "universal_newlines [] = []"
| "universal_newlines (c # cs) =
     (if c = CHR 0x0D then
        CHR 0x0A # (case cs of
                      [] \<Rightarrow> []
                    | d # ds \<Rightarrow>
                        if d = CHR 0x0A then universal_newlines ds else universal_newlines cs)
      else c # universal_newlines cs)"

text \<open>\<open>Path.read_text\<close>.\<close>

definition read_text :: "filesystem \<Rightarrow> path \<Rightarrow> os_error + string" where
  "read_text fs p =
     (case stat fs p of
        Inl e \<Rightarrow> Inl e
      | Inr Dir \<Rightarrow> Inl IsADirectoryError
      | Inr (File c) \<Rightarrow> Inr (universal_newlines c))"

text \<open>\<open>Path.write_text\<close>: the file is opened with \<open>O_CREAT\<close> and \<open>O_TRUNC\<close> and the
  data becomes its text.\<close>

definition write_text :: "filesystem \<Rightarrow> path \<Rightarrow> string \<Rightarrow> result" where
  "write_text fs p data =
     (case open_creat fs p of
        Inl e \<Rightarrow> Inl (e, fs)
      | Inr (k, c) \<Rightarrow> Inr (fs\<lparr>nodes := (nodes fs)(k \<mapsto> File data)\<rparr>))"

section \<open>The file creators\<close>

datatype file_creator = TSXFileCreator | CSSFileCreator | IndexFileCreator

fun get_absolute_filename :: "file_creator \<Rightarrow> element \<Rightarrow> path" where
  "get_absolute_filename TSXFileCreator e = truediv (full_path e) (name e @ ''.tsx'')"
| "get_absolute_filename CSSFileCreator e = truediv (full_path e) (name e @ ''.module.css'')"
| "get_absolute_filename IndexFileCreator e = truediv (full_path e) ''index.ts''"

text \<open>\<open>FileCreator._create_empty_file\<close>.\<close>

definition create_empty_file :: "file_creator \<Rightarrow> element \<Rightarrow> filesystem \<Rightarrow> result" where
  "create_empty_file fc e fs =
     (case mkdir_parents fs (parent (get_absolute_filename fc e)) of
        Inl ef \<Rightarrow> Inl ef
      | Inr fs1 \<Rightarrow> touch fs1 (get_absolute_filename fc e))"

text \<open>The text of the script file: the f-string of \<open>TSXFileCreator\<close> with the name
  filled in, before \<open>.strip()\<close>. Its last line is eight spaces.\<close>

definition tsx_template :: "string \<Rightarrow> string" where
  \<open>tsx_template n =
     ''import styles from "./'' @ n @ ''.module.css"'' @ [CHR 0x0A] @
     [CHR 0x0A] @
     ''interface '' @ n @ ''Props {'' @ [CHR 0x0A] @
     ''  '' @ [CHR 0x0A] @
     ''}'' @ [CHR 0x0A] @
     [CHR 0x0A] @
     ''const '' @ n @ '' = ({}: '' @ n @ ''Props) => ('' @ [CHR 0x0A] @
     ''  <div>'' @ n @ ''</div>'' @ [CHR 0x0A] @
     '')'' @ [CHR 0x0A] @
     [CHR 0x0A] @
     ''export default '' @ n @ [CHR 0x0A] @
     ''        ''\<close>

text \<open>The text of the index file.\<close>

definition index_export :: "string \<Rightarrow> string" where
  \<open>index_export n = ''export {default} from "./'' @ n @ ''";''\<close>

text \<open>\<open>_write_file_contents\<close> of the three creators.\<close>

fun write_file_contents :: "file_creator \<Rightarrow> element \<Rightarrow> filesystem \<Rightarrow> result" where
  "write_file_contents TSXFileCreator e fs =
     write_text fs (get_absolute_filename TSXFileCreator e) (strip (tsx_template (name e)))"
| "write_file_contents CSSFileCreator e fs = Inr fs"
| "write_file_contents IndexFileCreator e fs =
     (case read_text fs (get_absolute_filename IndexFileCreator e) of
        Inl err \<Rightarrow> Inl (err, fs)
      | Inr current_file_contents \<Rightarrow>
          if strip current_file_contents \<noteq> [] then Inr fs
          else write_text fs (get_absolute_filename IndexFileCreator e)
                 (index_export (name e)))"

text \<open>\<open>FileCreator.create\<close>.\<close>

definition create :: "file_creator \<Rightarrow> element \<Rightarrow> filesystem \<Rightarrow> result" where
  "create fc e fs =
     (case create_empty_file fc e fs of
        Inl ef \<Rightarrow> Inl ef
      | Inr fs1 \<Rightarrow> write_file_contents fc e fs1)"

text \<open>\<open>ElementFilesCreator.create\<close>: the registered creators in order; the first
  error ends the loop.\<close>

fun create_all :: "file_creator list \<Rightarrow> element \<Rightarrow> filesystem \<Rightarrow> result" where
  "create_all [] e fs = Inr fs"
| "create_all (fc # fcs) e fs =
     (case create fc e fs of
        Inl ef \<Rightarrow> Inl ef
      | Inr fs1 \<Rightarrow> create_all fcs e fs1)"

section \<open>The relative file names shown to the user\<close>

text \<open>\<open>str(p)\<close> of a path.\<close>

definition path_str :: "path \<Rightarrow> string" where
  "path_str p = (if root_of p = [] \<and> names p = [] then ''.'' else root_of p @ join (names p))"

text \<open>\<open>Path.resolve()\<close> where there are no symbolic links: \<open>os.path.realpath\<close>
  makes the path absolute and removes each \<open>..\<close> with the component before it.\<close>

fun normalise :: "string list \<Rightarrow> string list \<Rightarrow> string list" where
  "normalise cur [] = cur"
| "normalise cur (x # xs) = normalise (if x = ''..'' then butlast cur else cur @ [x]) xs"

definition resolve :: "filesystem \<Rightarrow> path \<Rightarrow> path" where
  "resolve fs p = Path ''/'' (normalise (start fs p) (names p))"

text \<open>\<open>FileCreator.get_relative_filename\<close>.\<close>

definition get_relative_filename :: "path \<Rightarrow> filesystem \<Rightarrow> file_creator \<Rightarrow> element \<Rightarrow> string" where
  "get_relative_filename src_dir fs fc e =
     (let relative_path_start_index = 1 + length (path_str (resolve fs src_dir))
      in drop relative_path_start_index (path_str (resolve fs (get_absolute_filename fc e))))"

text \<open>\<open>ElementFilesCreator.get_relative_filenames\<close>.\<close>

definition get_relative_filenames ::
    "path \<Rightarrow> filesystem \<Rightarrow> file_creator list \<Rightarrow> element \<Rightarrow> string list" where
  "get_relative_filenames src_dir fs fcs e = map (\<lambda>fc. get_relative_filename src_dir fs fc e) fcs"

section \<open>The terminal and the prompts\<close>

text \<open>
  Standard input is a stream of events: a line (without its newline), an interrupt
  (Ctrl-C while \<open>input\<close> waits) or the end of the input. The stream is infinite, so a
  prompt loop that is never given an answer it knows does not return: the loops are
  partial functions and \<open>None\<close> is a run that never ends.

  The texts the script writes are Russian and so outside the alphabet of \<open>string\<close>;
  each is a constructor of \<open>message\<close>:
  \<^item> \<open>BaseFolderPrompt\<close>: the prompt \<open>c - components, p - pages:\<close>;
  \<^item> \<open>ElementPrompt b\<close>: the prompt asking where to put the element, ending in the
    folder name of \<open>b\<close> and a slash;
  \<^item> \<open>FileList fs\<close>: the announcement of the files to create, the names joined by a
    newline and a tab;
  \<^item> \<open>OkPrompt\<close>: the prompt \<open>Ok? [Y]/N:\<close>;
  \<^item> \<open>NotUnderstood\<close>: the line saying the answer was not understood, try again;
  \<^item> \<open>NothingCreated\<close>: the text given to \<open>exit\<close>: leaving, nothing was created;
  \<^item> \<open>AllCreated\<close>: the closing line saying everything was created.
\<close>

datatype stdin_event = Line string | Interrupt | EndOfInput

datatype message =
  BaseFolderPrompt | ElementPrompt base_folder | FileList "string list" | OkPrompt
  | NotUnderstood | NothingCreated | AllCreated

record terminal =
  stdin :: "stdin_event stream"
  shown :: "message list"

text \<open>The exceptions that can leave \<open>main\<close>. \<open>SystemExit\<close> carries the argument of
  \<open>exit\<close>, which in this script is always a text.\<close>

datatype exn = EOFError | KeyboardInterrupt | SystemExit message | OSError os_error

text \<open>\<open>input(prompt)\<close>: the prompt is written, then one event is taken.\<close>

definition py_input :: "message \<Rightarrow> terminal \<Rightarrow> (exn + string) \<times> terminal" where
  "py_input prompt t =
     (let t' = \<lparr>stdin = stl (stdin t), shown = shown t @ [prompt]\<rparr>
      in case shd (stdin t) of
           Line s \<Rightarrow> (Inr s, t')
         | Interrupt \<Rightarrow> (Inl KeyboardInterrupt, t')
         | EndOfInput \<Rightarrow> (Inl EOFError, t'))"

definition py_print :: "message \<Rightarrow> terminal \<Rightarrow> terminal" where
  "py_print msg t = t\<lparr>shown := shown t @ [msg]\<rparr>"

text \<open>\<open>AskParams._ask_base_folder\<close>.\<close>

partial_function (option) ask_base_folder ::
    "terminal \<Rightarrow> ((exn + base_folder) \<times> terminal) option" where
  "ask_base_folder t =
     (case py_input BaseFolderPrompt t of
        (Inl ex, t') \<Rightarrow> Some (Inl ex, t')
      | (Inr s, t') \<Rightarrow>
          if lower (strip s) = ''c'' then Some (Inr Components, t')
          else if lower (strip s) = ''p'' then Some (Inr Pages, t')
          else ask_base_folder (py_print NotUnderstood t'))"

text \<open>\<open>AskParams._ask_element\<close>.\<close>

definition ask_element :: "base_folder \<Rightarrow> terminal \<Rightarrow> (exn + string) \<times> terminal" where
  "ask_element base_folder t =
     (case py_input (ElementPrompt base_folder) t of
        (Inl ex, t') \<Rightarrow> (Inl ex, t')
      | (Inr s, t') \<Rightarrow> (Inr (strip s), t'))"

text \<open>\<open>AskParams.ask\<close>.\<close>

definition ask :: "path \<Rightarrow> terminal \<Rightarrow> ((exn + element) \<times> terminal) option" where
  "ask src_dir t =
     (case ask_base_folder t of
        None \<Rightarrow> None
      | Some (Inl ex, t1) \<Rightarrow> Some (Inl ex, t1)
      | Some (Inr base_folder, t1) \<Rightarrow>
          (case ask_element base_folder t1 of
             (Inl ex, t2) \<Rightarrow> Some (Inl ex, t2)
           | (Inr s, t2) \<Rightarrow> Some (Inr (parse_as_element src_dir s base_folder), t2)))"

text \<open>\<open>AskParams.ask_ok\<close>: \<open>y\<close> or nothing returns, \<open>n\<close> calls \<open>exit\<close> with a text,
  which raises \<open>SystemExit\<close>.\<close>

partial_function (option) ask_ok ::
    "string list \<Rightarrow> terminal \<Rightarrow> ((exn + unit) \<times> terminal) option" where
  "ask_ok filenames t =
     (case py_input OkPrompt (py_print (FileList filenames) t) of
        (Inl ex, t') \<Rightarrow> Some (Inl ex, t')
      | (Inr s, t') \<Rightarrow>
          if lower (strip s) = ''y'' \<or> lower (strip s) = [] then Some (Inr (), t')
          else if lower (strip s) = ''n'' then Some (Inl (SystemExit NothingCreated), t')
          else ask_ok filenames (py_print NotUnderstood t'))"

section \<open>The program\<close>

text \<open>\<open>main\<close>: the result, the filesystem and the terminal when it returns or raises.\<close>

definition main ::
    "path \<Rightarrow> filesystem \<Rightarrow> terminal \<Rightarrow> ((exn + unit) \<times> filesystem \<times> terminal) option" where
  "main src_dir fs t =
     (case ask src_dir t of
        None \<Rightarrow> None
      | Some (Inl ex, t1) \<Rightarrow> Some (Inl ex, fs, t1)
      | Some (Inr element, t1) \<Rightarrow>
          (let file_creators = [TSXFileCreator, CSSFileCreator, IndexFileCreator]
           in case ask_ok (get_relative_filenames src_dir fs file_creators element) t1 of
                None \<Rightarrow> None
              | Some (Inl ex, t2) \<Rightarrow> Some (Inl ex, fs, t2)
              | Some (Inr u, t2) \<Rightarrow>
                  (case create_all file_creators element fs of
                     Inl (err, fs') \<Rightarrow> Some (Inl (OSError err), fs', t2)
                   | Inr fs' \<Rightarrow> Some (Inr (), fs', py_print AllCreated t2))))"

text \<open>
  The script: \<open>main()\<close> inside \<open>try\<close>, with \<open>KeyboardInterrupt\<close> caught and dropped.
  The exit status is the interpreter's: 0 when the script runs to its end; for a
  \<open>SystemExit\<close> whose argument is a text the text is written to standard error and
  the status is 1; an exception nobody catches gives a traceback and the status 1.
\<close>

fun exit_status :: "exn + unit \<Rightarrow> nat" where
  "exit_status (Inr u) = 0"
| "exit_status (Inl KeyboardInterrupt) = 0"
| "exit_status (Inl (SystemExit msg)) = 1"
| "exit_status (Inl EOFError) = 1"
| "exit_status (Inl (OSError err)) = 1"

fun stderr_text :: "exn + unit \<Rightarrow> terminal \<Rightarrow> terminal" where
  "stderr_text (Inl (SystemExit msg)) t = py_print msg t"
| "stderr_text r t = t"

definition script :: "path \<Rightarrow> filesystem \<Rightarrow> terminal \<Rightarrow> (nat \<times> filesystem \<times> terminal) option" where
  "script src_dir fs t =
     (case main src_dir fs t of
        None \<Rightarrow> None
      | Some (r, fs', t') \<Rightarrow> Some (exit_status r, fs', stderr_text r t'))"

section \<open>Predicates for stating the properties\<close>

text \<open>A path lies under a base directory, read lexically as
  \<open>PurePath.is_relative_to\<close> reads it: the same root, and the components of the
  base come first.\<close>

definition rooted_under :: "path \<Rightarrow> path \<Rightarrow> bool" where
  "rooted_under base p = (root_of p = root_of base \<and> prefix (names base) (names p))"

text \<open>The invariant the data model states for an element: the name is not empty and
  has no separator, and the directory lies under one of the two categories.\<close>

definition element_invariant :: "path \<Rightarrow> element \<Rightarrow> bool" where
  "element_invariant src_dir e =
     (name e \<noteq> [] \<and> CHR ''/'' \<notin> set (name e) \<and>
      (rooted_under (truediv src_dir (folder_name Components)) (full_path e) \<or>
       rooted_under (truediv src_dir (folder_name Pages)) (full_path e)))"



text \<open>The second filesystem is the first with directories added at locations where
  nothing was stored; nothing else differs.\<close>

definition dirs_added :: "filesystem \<Rightarrow> filesystem \<Rightarrow> bool" where
  "dirs_added fs fs' =
     (cwd fs' = cwd fs \<and>
      (\<forall>k. nodes fs' k = nodes fs k \<or> (nodes fs k = None \<and> nodes fs' k = Some Dir)))"

section \<open>Facts about the string functions\<close>

lemma split_not_Nil: "split s \<noteq> []"
  by (induction s) (auto split: list.splits)

lemma split_no_sep: "CHR ''/'' \<notin> set s \<Longrightarrow> split s = [s]"
  by (induction s) auto

lemma split_append_sep: "split (p @ CHR ''/'' # n) = split p @ split n"
proof (induction p)
  case Nil
  show ?case by simp
next
  case (Cons c p)
  obtain y ys where sp: "split p = y # ys"
    using split_not_Nil [of p] by (cases "split p") auto
  show ?case using Cons.IH sp by simp
qed

lemma join_snoc: "xs \<noteq> [] \<Longrightarrow> join (xs @ [y]) = join xs @ CHR ''/'' # y"
  by (induction xs rule: join.induct) auto

lemma join_split: "join (split s) = s"
proof (induction s)
  case Nil
  show ?case by simp
next
  case (Cons c s)
  obtain y ys where sp: "split s = y # ys"
    using split_not_Nil [of s] by (cases "split s") auto
  show ?case using Cons.IH sp by (cases ys) auto
qed

lemma split_segments_no_sep: "x \<in> set (split s) \<Longrightarrow> CHR ''/'' \<notin> set x"
proof (induction s arbitrary: x)
  case Nil
  then show ?case by simp
next
  case (Cons c s)
  obtain y ys where sp: "split s = y # ys"
    using split_not_Nil [of s] by (cases "split s") auto
  have y: "CHR ''/'' \<notin> set y" using Cons.IH [of y] sp by simp
  have ys: "\<And>z. z \<in> set ys \<Longrightarrow> CHR ''/'' \<notin> set z" using Cons.IH sp by simp
  show ?case
    using Cons.prems sp y ys by (auto split: if_splits)
qed

lemma split_snoc_segment:
  "CHR ''/'' \<notin> set n \<Longrightarrow> split (p @ CHR ''/'' # n) = split p @ [n]"
  by (simp add: split_append_sep split_no_sep)

lemma split_cases:
  "(CHR ''/'' \<notin> set s) \<or> (\<exists>p n. s = p @ CHR ''/'' # n \<and> CHR ''/'' \<notin> set n)"
proof (cases "CHR ''/'' \<in> set s")
  case True
  then show ?thesis using split_list_last [of "CHR ''/''" s] by blast
next
  case False
  then show ?thesis by simp
qed

lemma parse_single:
  "CHR ''/'' \<notin> set n \<Longrightarrow>
   parse_as_element src n b =
     \<lparr>full_path = truediv (truediv src (folder_name b)) n, name = n\<rparr>"
  by (simp add: parse_as_element_def split_no_sep)

lemma parse_multi:
  assumes n: "CHR ''/'' \<notin> set n"
  shows "parse_as_element src (p @ CHR ''/'' # n) b =
           \<lparr>full_path = truediv (truediv src (folder_name b)) p, name = n\<rparr>"
proof -
  have sp: "split (p @ CHR ''/'' # n) = split p @ [n]"
    by (rule split_snoc_segment [OF n])
  have len: "length (split p @ [n]) > 1"
    using split_not_Nil [of p] by (cases "split p") simp_all
  show ?thesis
    unfolding parse_as_element_def sp Let_def using len by (simp add: join_split)
qed

section \<open>Facts about paths\<close>

lemma splitroot_relative: "s = [] \<or> hd s \<noteq> CHR ''/'' \<Longrightarrow> splitroot s = ([], s)"
  by (auto simp: splitroot_def)

lemma splitroot_absolute:
  "s \<noteq> [] \<Longrightarrow> hd s = CHR ''/'' \<Longrightarrow> fst (splitroot s) \<noteq> []"
  by (simp add: splitroot_def Let_def)

lemma root_of_parse_parts:
  "root_of (parse_parts s) = [] \<longleftrightarrow> s = [] \<or> hd s \<noteq> CHR ''/''"
proof (cases "s = [] \<or> hd s \<noteq> CHR ''/''")
  case True
  then show ?thesis by (simp add: parse_parts_def splitroot_relative)
next
  case False
  then have "fst (splitroot s) \<noteq> []" using splitroot_absolute [of s] by simp
  then show ?thesis using False by (simp add: parse_parts_def split_beta)
qed

lemma truediv_relative:
  "s = [] \<or> hd s \<noteq> CHR ''/'' \<Longrightarrow>
   truediv p s = Path (root_of p) (names p @ filter (\<lambda>x. x \<noteq> [] \<and> x \<noteq> ''.'') (split s))"
  by (simp add: truediv_def parse_parts_def splitroot_relative)

lemma truediv_absolute:
  "s \<noteq> [] \<Longrightarrow> hd s = CHR ''/'' \<Longrightarrow> truediv p s = parse_parts s"
  using root_of_parse_parts [of s] by (simp add: truediv_def Let_def)


section \<open>The parser's directory rule\<close>

text \<open>
  Claim C1, as amended. The raw string is split at the slashes and the last segment is
  the name. A string with a slash is \<open>p/n\<close> with no slash in \<open>n\<close>: the name is
  \<open>n\<close> and the directory is the root directory joined, as pathlib joins, with the
  category and with \<open>p\<close>, all the segments but the last joined by slashes; that is
  \<open><root>/<category>/<p>\<close> (the empty and \<open>.\<close> components of \<open>p\<close> dropped) when
  \<open>p\<close> does not begin with a slash, and the absolute path \<open>p\<close> itself when it does.
  A string without a slash is one segment \<open>n\<close>: the name is \<open>n\<close> and the directory
  is \<open><root>/<category>/<n>\<close>. (Every string is of one of the two forms:
  \<open>split_cases\<close>.)
\<close>

theorem parse_as_element_directory:
  "CHR ''/'' \<notin> set n \<Longrightarrow>
   split (p @ ''/'' @ n) = split p @ [n] \<and>
   parse_as_element src (p @ ''/'' @ n) b =
     \<lparr>full_path = truediv (truediv src (folder_name b)) p, name = n\<rparr> \<and>
   truediv (truediv src (folder_name b)) p =
     (if p \<noteq> [] \<and> hd p = CHR ''/'' then parse_parts p
      else Path (root_of src)
             (names src @ [folder_name b] @ filter (\<lambda>x. x \<noteq> [] \<and> x \<noteq> ''.'') (split p))) \<and>
   split n = [n] \<and>
   parse_as_element src n b =
     \<lparr>full_path =
        Path (root_of src) (names src @ [folder_name b] @ filter (\<lambda>x. x \<noteq> [] \<and> x \<noteq> ''.'') [n]),
      name = n\<rparr>"
proof -
  assume n: "CHR ''/'' \<notin> set n"
  have f: "truediv src (folder_name b) = Path (root_of src) (names src @ [folder_name b])"
    by (cases b) (simp_all add: truediv_def parse_parts_def splitroot_def)
  have rel: "n = [] \<or> hd n \<noteq> CHR ''/''" using n by (cases n) auto
  have d: "truediv (truediv src (folder_name b)) p =
     (if p \<noteq> [] \<and> hd p = CHR ''/'' then parse_parts p
      else Path (root_of src)
             (names src @ [folder_name b] @ filter (\<lambda>x. x \<noteq> [] \<and> x \<noteq> ''.'') (split p)))"
    using truediv_absolute [of p] truediv_relative [of p] by (auto simp: f)
  have s: "parse_as_element src n b =
     \<lparr>full_path =
        Path (root_of src) (names src @ [folder_name b] @ filter (\<lambda>x. x \<noteq> [] \<and> x \<noteq> ''.'') [n]),
      name = n\<rparr>"
    unfolding parse_single [OF n] truediv_relative [OF rel] f split_no_sep [OF n] by simp
  show ?thesis
    using parse_multi [OF n, of src p b] d s n
    by (simp add: split_snoc_segment split_no_sep)
qed

theorem parse_as_element_directory_witness:
  "CHR ''/'' \<notin> set ''AuthorCourses'' \<and>
   parse_as_element (Path ''/'' [''app'', ''src'']) ''MyCourses/AuthorCourses'' Pages =
     \<lparr>full_path = Path ''/'' [''app'', ''src'', ''pages'', ''MyCourses''],
      name = ''AuthorCourses''\<rparr> \<and>
   parse_as_element (Path ''/'' [''app'', ''src'']) ''AuthorCourses'' Pages =
     \<lparr>full_path = Path ''/'' [''app'', ''src'', ''pages'', ''AuthorCourses''],
      name = ''AuthorCourses''\<rparr>"
proof -
  have n: "CHR ''/'' \<notin> set ''AuthorCourses''" by simp
  have sp: "split ''MyCourses'' = [''MyCourses'']" by simp
  show ?thesis
    using parse_as_element_directory
            [OF n, of "''MyCourses''" "Path ''/'' [''app'', ''src'']" Pages] n sp
    by simp
qed

text \<open>
  Claim C1 as the specification states it fails: for the string \<open>/opt/x/Foo\<close> the
  segments before the last, joined, are \<open>/opt/x\<close>, and the directory is \<open>/opt/x\<close>,
  not a directory under \<open><root>/components\<close>.
\<close>

theorem parse_as_element_directory_counterexample:
  "split ''/opt/x/Foo'' = ['''', ''opt'', ''x'', ''Foo''] \<and>
   join (butlast (split ''/opt/x/Foo'')) = ''/opt/x'' \<and>
   parse_as_element (Path ''/'' [''app'', ''src'']) ''/opt/x/Foo'' Components =
     \<lparr>full_path = Path ''/'' [''opt'', ''x''], name = ''Foo''\<rparr> \<and>
   \<not> rooted_under (Path ''/'' [''app'', ''src'', ''components''])
       (full_path (parse_as_element (Path ''/'' [''app'', ''src'']) ''/opt/x/Foo'' Components))"
  by (simp add: parse_as_element_def truediv_def parse_parts_def splitroot_def rooted_under_def)


section \<open>The invariant of the parsed element\<close>

lemma truediv_folder_name:
  "truediv src (folder_name b) = Path (root_of src) (names src @ [folder_name b])"
  by (cases b) (simp_all add: truediv_def parse_parts_def splitroot_def)

lemma rooted_under_truediv_relative:
  "s = [] \<or> hd s \<noteq> CHR ''/'' \<Longrightarrow> rooted_under base (truediv base s)"
  by (simp add: truediv_relative rooted_under_def)

lemma parse_invariant_single:
  assumes "CHR ''/'' \<notin> set s"
  shows "(let e = parse_as_element src s b
          in CHR ''/'' \<notin> set (name e) \<and>
             (name e = [] \<longleftrightarrow> s = [] \<or> last s = CHR ''/'') \<and>
             (if s \<noteq> [] \<and> hd s = CHR ''/'' \<and> CHR ''/'' \<in> set (tl s)
              then full_path e = parse_parts (join (butlast (split s))) \<and>
                   root_of (full_path e) \<noteq> []
              else rooted_under (truediv src (folder_name b)) (full_path e)))"
proof -
  have rel: "s = [] \<or> hd s \<noteq> CHR ''/''" using assms by (cases s) auto
  have tl: "CHR ''/'' \<notin> set (tl s)" using assms by (cases s) auto
  have lst: "s \<noteq> [] \<Longrightarrow> last s \<noteq> CHR ''/''" using assms by (metis last_in_set)
  show ?thesis
    unfolding parse_single [OF assms] Let_def
    using assms tl lst rooted_under_truediv_relative [OF rel] by auto
qed

lemma parse_invariant_multi:
  assumes n: "CHR ''/'' \<notin> set n" and s: "s = p @ CHR ''/'' # n"
  shows "(let e = parse_as_element src s b
          in CHR ''/'' \<notin> set (name e) \<and>
             (name e = [] \<longleftrightarrow> s = [] \<or> last s = CHR ''/'') \<and>
             (if s \<noteq> [] \<and> hd s = CHR ''/'' \<and> CHR ''/'' \<in> set (tl s)
              then full_path e = parse_parts (join (butlast (split s))) \<and>
                   root_of (full_path e) \<noteq> []
              else rooted_under (truediv src (folder_name b)) (full_path e)))"
proof -
  have e: "parse_as_element src s b =
             \<lparr>full_path = truediv (truediv src (folder_name b)) p, name = n\<rparr>"
    unfolding s by (rule parse_multi [OF n])
  have "n \<noteq> [] \<Longrightarrow> last n \<noteq> CHR ''/''" using n by (metis last_in_set)
  then have nm: "(n = [] \<longleftrightarrow> s = [] \<or> last s = CHR ''/'')"
    by (auto simp: s)
  have cond: "(s \<noteq> [] \<and> hd s = CHR ''/'' \<and> CHR ''/'' \<in> set (tl s)) \<longleftrightarrow>
              (p \<noteq> [] \<and> hd p = CHR ''/'')"
    using n by (cases p) (auto simp: s)
  have jb: "join (butlast (split s)) = p"
    unfolding s split_snoc_segment [OF n] by (simp add: join_split)
  show ?thesis
  proof (cases "p \<noteq> [] \<and> hd p = CHR ''/''")
    case True
    then have "truediv (truediv src (folder_name b)) p = parse_parts p"
      by (simp add: truediv_absolute)
    moreover have "root_of (parse_parts p) \<noteq> []"
      using True root_of_parse_parts [of p] by simp
    moreover have "(s \<noteq> [] \<and> hd s = CHR ''/'' \<and> CHR ''/'' \<in> set (tl s)) = True"
      using cond True by blast
    ultimately show ?thesis
      unfolding e Let_def using n nm jb by auto
  next
    case False
    then have "rooted_under (truediv src (folder_name b))
                 (truediv (truediv src (folder_name b)) p)"
      using rooted_under_truediv_relative [of p] by blast
    moreover have "(s \<noteq> [] \<and> hd s = CHR ''/'' \<and> CHR ''/'' \<in> set (tl s)) = False"
      using cond False by blast
    ultimately show ?thesis
      unfolding e Let_def using n nm by auto
  qed
qed

text \<open>
  Claim C8, as amended. For every raw string and category the name of the parsed
  element has no slash; the name is empty exactly when the string is empty or ends in a
  slash; and the directory lies under the category's directory unless the string
  begins with a slash and has a second slash, in which case the directory is the
  absolute path typed before the last slash, whatever it is.
\<close>

theorem parse_as_element_invariant:
  "(let e = parse_as_element src s b
    in CHR ''/'' \<notin> set (name e) \<and>
       (name e = [] \<longleftrightarrow> s = [] \<or> last s = CHR ''/'') \<and>
       (if s \<noteq> [] \<and> hd s = CHR ''/'' \<and> CHR ''/'' \<in> set (tl s)
        then full_path e = parse_parts (join (butlast (split s))) \<and>
             root_of (full_path e) \<noteq> []
        else rooted_under (truediv src (folder_name b)) (full_path e)))"
  using split_cases [of s] parse_invariant_single [of s src b]
    parse_invariant_multi [of _ s _ src b]
  by blast

theorem parse_as_element_invariant_witness:
  "CHR ''/'' \<notin> set (name (parse_as_element (Path ''/'' [''app'', ''src'']) ''a/Button'' Components)) \<and>
   name (parse_as_element (Path ''/'' [''app'', ''src'']) ''a/Button'' Components) \<noteq> [] \<and>
   rooted_under (truediv (Path ''/'' [''app'', ''src'']) (folder_name Components))
     (full_path (parse_as_element (Path ''/'' [''app'', ''src'']) ''a/Button'' Components))"
  using parse_as_element_invariant [of "Path ''/'' [''app'', ''src'']" "''a/Button''" Components]
  unfolding Let_def by simp

text \<open>
  Claim C8 as the specification states it fails: the empty string gives an element with
  the empty name, and \<open>/tmp/Foo\<close> gives the directory \<open>/tmp\<close>, outside both
  categories.
\<close>

theorem parse_as_element_invariant_counterexample:
  "\<not> element_invariant (Path ''/'' [''app'', ''src''])
       (parse_as_element (Path ''/'' [''app'', ''src'']) '''' Components) \<and>
   \<not> element_invariant (Path ''/'' [''app'', ''src''])
       (parse_as_element (Path ''/'' [''app'', ''src'']) ''/tmp/Foo'' Components) \<and>
   parse_as_element (Path ''/'' [''app'', ''src'']) '''' Components =
     \<lparr>full_path = Path ''/'' [''app'', ''src'', ''components''], name = ''''\<rparr> \<and>
   parse_as_element (Path ''/'' [''app'', ''src'']) ''/tmp/Foo'' Components =
     \<lparr>full_path = Path ''/'' [''tmp''], name = ''Foo''\<rparr>"
  by (simp add: element_invariant_def parse_as_element_def truediv_def parse_parts_def
        splitroot_def rooted_under_def)


section \<open>The tokens of the prompts\<close>

lemma lower_char_eq_iff:
  assumes "of_char y < (128::nat)"
  shows "lower_char x = y \<longleftrightarrow>
           (if 97 \<le> (of_char y::nat) \<and> (of_char y::nat) \<le> 122
            then x = y \<or> x = char_of ((of_char y::nat) - 32)
            else if 65 \<le> (of_char y::nat) \<and> (of_char y::nat) \<le> 90 then False else x = y)"
proof -
  define n :: nat where "n = of_char x"
  define k :: nat where "k = of_char y"
  have x: "x = char_of n" by (simp add: n_def)
  have y: "y = char_of k" by (simp add: k_def)
  have n: "n < 256" by (simp add: n_def)
  have k: "k < 128" using assms by (simp add: k_def)
  have e: "\<And>a b::nat. a < 256 \<Longrightarrow> b < 256 \<Longrightarrow> (char_of a = (char_of b :: char)) = (a = b)"
    by simp
  have lc: "lower_char x =
      (if (65 \<le> n \<and> n \<le> 90) \<or> (192 \<le> n \<and> n \<le> 214) \<or> (216 \<le> n \<and> n \<le> 222)
       then char_of (n + 32) else x)"
    by (simp add: lower_char_def Let_def n_def)
  show ?thesis
    unfolding lc unfolding x y using n k
    by (auto simp add: e)
qed

lemma upper_chars:
  "char_of (67::nat) = CHR ''C''" "char_of (80::nat) = CHR ''P''"
  "char_of (89::nat) = CHR ''Y''" "char_of (78::nat) = CHR ''N''"
  by (simp_all add: char_of_eq_iff take_bit_eq_mod)

lemma lower_eq_c: "lower s = ''c'' \<longleftrightarrow> s \<in> {''c'', ''C''}"
  by (cases s) (auto simp add: lower_def lower_char_eq_iff upper_chars)

lemma lower_eq_p: "lower s = ''p'' \<longleftrightarrow> s \<in> {''p'', ''P''}"
  by (cases s) (auto simp add: lower_def lower_char_eq_iff upper_chars)

lemma lower_eq_y: "lower s = ''y'' \<longleftrightarrow> s \<in> {''y'', ''Y''}"
  by (cases s) (auto simp add: lower_def lower_char_eq_iff upper_chars)

lemma lower_eq_n: "lower s = ''n'' \<longleftrightarrow> s \<in> {''n'', ''N''}"
  by (cases s) (auto simp add: lower_def lower_char_eq_iff upper_chars)

lemma lower_eq_Nil: "lower s = [] \<longleftrightarrow> s = []"
  by (simp add: lower_def)

lemma ask_base_folder_Line:
  "ask_base_folder \<lparr>stdin = Line s ## rest, shown = out\<rparr> =
     (if lower (strip s) = ''c''
        then Some (Inr Components, \<lparr>stdin = rest, shown = out @ [BaseFolderPrompt]\<rparr>)
      else if lower (strip s) = ''p''
        then Some (Inr Pages, \<lparr>stdin = rest, shown = out @ [BaseFolderPrompt]\<rparr>)
      else ask_base_folder \<lparr>stdin = rest, shown = out @ [BaseFolderPrompt, NotUnderstood]\<rparr>)"
  by (subst ask_base_folder.simps) (simp add: py_input_def py_print_def)

lemma ask_base_folder_raise:
  "ask_base_folder \<lparr>stdin = Interrupt ## rest, shown = out\<rparr> =
     Some (Inl KeyboardInterrupt, \<lparr>stdin = rest, shown = out @ [BaseFolderPrompt]\<rparr>)"
  "ask_base_folder \<lparr>stdin = EndOfInput ## rest, shown = out\<rparr> =
     Some (Inl EOFError, \<lparr>stdin = rest, shown = out @ [BaseFolderPrompt]\<rparr>)"
  by (subst ask_base_folder.simps, simp add: py_input_def)+

lemma ask_ok_Line:
  "ask_ok filenames \<lparr>stdin = Line s ## rest, shown = out\<rparr> =
     (if lower (strip s) = ''y'' \<or> lower (strip s) = []
        then Some (Inr (), \<lparr>stdin = rest, shown = out @ [FileList filenames, OkPrompt]\<rparr>)
      else if lower (strip s) = ''n''
        then Some (Inl (SystemExit NothingCreated),
                   \<lparr>stdin = rest, shown = out @ [FileList filenames, OkPrompt]\<rparr>)
      else ask_ok filenames
             \<lparr>stdin = rest, shown = out @ [FileList filenames, OkPrompt, NotUnderstood]\<rparr>)"
  by (subst ask_ok.simps) (simp add: py_input_def py_print_def)

lemma ask_ok_raise:
  "ask_ok filenames \<lparr>stdin = Interrupt ## rest, shown = out\<rparr> =
     Some (Inl KeyboardInterrupt, \<lparr>stdin = rest, shown = out @ [FileList filenames, OkPrompt]\<rparr>)"
  "ask_ok filenames \<lparr>stdin = EndOfInput ## rest, shown = out\<rparr> =
     Some (Inl EOFError, \<lparr>stdin = rest, shown = out @ [FileList filenames, OkPrompt]\<rparr>)"
  by (subst ask_ok.simps, simp add: py_input_def py_print_def)+

text \<open>
  Claim C9. At the category prompt a line is trimmed and lowercased; the trimmed line
  \<open>c\<close> or \<open>C\<close> returns the components category, \<open>p\<close> or \<open>P\<close> returns the pages
  category, and every other line writes the error message and asks again, so the
  prompt returns nothing but one of the two categories, and only on one of these
  lines.
\<close>

theorem ask_base_folder_tokens:
  "ask_base_folder \<lparr>stdin = Line s ## rest, shown = out\<rparr> =
     (if strip s \<in> {''c'', ''C''}
        then Some (Inr Components, \<lparr>stdin = rest, shown = out @ [BaseFolderPrompt]\<rparr>)
      else if strip s \<in> {''p'', ''P''}
        then Some (Inr Pages, \<lparr>stdin = rest, shown = out @ [BaseFolderPrompt]\<rparr>)
      else ask_base_folder \<lparr>stdin = rest, shown = out @ [BaseFolderPrompt, NotUnderstood]\<rparr>)"
  unfolding ask_base_folder_Line lower_eq_c lower_eq_p by (rule refl)

theorem ask_base_folder_tokens_witness:
  "ask_base_folder
     \<lparr>stdin = Line ''components'' ## Line '' P '' ## sconst EndOfInput, shown = []\<rparr> =
   Some (Inr Pages,
     \<lparr>stdin = sconst EndOfInput,
      shown = [BaseFolderPrompt, NotUnderstood, BaseFolderPrompt]\<rparr>)"
proof -
  have a: "strip ''components'' = ''components''" and b: "strip '' P '' = ''P''"
    by (simp_all add: strip_def isspace_def)
  show ?thesis
    using ask_base_folder_tokens [of "''components''" "Line '' P '' ## sconst EndOfInput" "[]"]
      ask_base_folder_tokens [of "'' P ''" "sconst EndOfInput" "[BaseFolderPrompt, NotUnderstood]"]
    unfolding a b by simp
qed

text \<open>
  Claim C7, as amended. At the confirmation prompt a line is trimmed and lowercased;
  the trimmed line \<open>y\<close>, \<open>Y\<close> or the empty line is the confirmation and the prompt
  returns to \<open>main\<close>, which goes on to the writes; \<open>n\<close> or \<open>N\<close> raises
  \<open>SystemExit\<close>, which ends the program; every other line, the words \<open>yes\<close> and
  \<open>no\<close> among them, writes the error message and asks again.
\<close>

theorem ask_ok_tokens:
  "ask_ok filenames \<lparr>stdin = Line s ## rest, shown = out\<rparr> =
     (if strip s \<in> {''y'', ''Y'', ''''}
        then Some (Inr (), \<lparr>stdin = rest, shown = out @ [FileList filenames, OkPrompt]\<rparr>)
      else if strip s \<in> {''n'', ''N''}
        then Some (Inl (SystemExit NothingCreated),
                   \<lparr>stdin = rest, shown = out @ [FileList filenames, OkPrompt]\<rparr>)
      else ask_ok filenames
             \<lparr>stdin = rest, shown = out @ [FileList filenames, OkPrompt, NotUnderstood]\<rparr>)"
  unfolding ask_ok_Line lower_eq_y lower_eq_n lower_eq_Nil by auto

theorem ask_ok_tokens_witness:
  "ask_ok [''a''] \<lparr>stdin = Line ''maybe'' ## Line '' Y'' ## sconst EndOfInput, shown = []\<rparr> =
   Some (Inr (),
     \<lparr>stdin = sconst EndOfInput,
      shown = [FileList [''a''], OkPrompt, NotUnderstood, FileList [''a''], OkPrompt]\<rparr>)"
proof -
  have a: "strip ''maybe'' = ''maybe''" and b: "strip '' Y'' = ''Y''"
    by (simp_all add: strip_def isspace_def)
  show ?thesis
    using ask_ok_tokens [of "[''a'']" "''maybe''" "Line '' Y'' ## sconst EndOfInput" "[]"]
      ask_ok_tokens [of "[''a'']" "'' Y''" "sconst EndOfInput"
        "[FileList [''a''], OkPrompt, NotUnderstood]"]
    unfolding a b by simp
qed

text \<open>
  Claim C7 as the specification states it fails: the line \<open>yes\<close> is not taken as the
  confirmation (the prompt asks again, and the \<open>n\<close> that follows ends the program),
  and the line \<open>no\<close> does not end the program (the prompt asks again, and the \<open>y\<close>
  that follows confirms).
\<close>

theorem ask_ok_tokens_counterexample:
  "ask_ok [] \<lparr>stdin = Line ''yes'' ## Line ''n'' ## sconst EndOfInput, shown = []\<rparr> =
     Some (Inl (SystemExit NothingCreated),
       \<lparr>stdin = sconst EndOfInput,
        shown = [FileList [], OkPrompt, NotUnderstood, FileList [], OkPrompt]\<rparr>) \<and>
   ask_ok [] \<lparr>stdin = Line ''no'' ## Line ''y'' ## sconst EndOfInput, shown = []\<rparr> =
     Some (Inr (),
       \<lparr>stdin = sconst EndOfInput,
        shown = [FileList [], OkPrompt, NotUnderstood, FileList [], OkPrompt]\<rparr>)"
  by (simp add: ask_ok_Line strip_def isspace_def lower_def lower_char_def)


section \<open>The run up to the confirmation\<close>

lemma ask_Line_Line:
  "ask src \<lparr>stdin = Line a ## Line el ## rest, shown = out\<rparr> =
     (if strip a \<in> {''c'', ''C''}
        then Some (Inr (parse_as_element src (strip el) Components),
               \<lparr>stdin = rest, shown = out @ [BaseFolderPrompt, ElementPrompt Components]\<rparr>)
      else if strip a \<in> {''p'', ''P''}
        then Some (Inr (parse_as_element src (strip el) Pages),
               \<lparr>stdin = rest, shown = out @ [BaseFolderPrompt, ElementPrompt Pages]\<rparr>)
      else ask src \<lparr>stdin = Line el ## rest, shown = out @ [BaseFolderPrompt, NotUnderstood]\<rparr>)"
  by (simp add: ask_def ask_base_folder_Line lower_eq_c lower_eq_p ask_element_def py_input_def)

lemma main_declined:
  "ask src t = Some (Inr e, t1) \<Longrightarrow>
   ask_ok (get_relative_filenames src fs
             [TSXFileCreator, CSSFileCreator, IndexFileCreator] e) t1 =
     Some (Inl (SystemExit msg), t2) \<Longrightarrow>
   main src fs t = Some (Inl (SystemExit msg), fs, t2)"
  by (simp add: main_def)

lemma main_before_writes:
  assumes "main src fs t = Some (r, fs', t')"
    and "r \<noteq> Inr ()" and "\<And>err. r \<noteq> Inl (OSError err)"
  shows "fs' = fs"
  using assms
  by (auto simp: main_def Let_def split: option.splits sum.splits prod.splits)

lemma example_filenames:
  "get_relative_filenames (Path ''/'' [''app'', ''src'']) \<lparr>nodes = [[] \<mapsto> Dir], cwd = []\<rparr>
     [TSXFileCreator, CSSFileCreator, IndexFileCreator]
     (parse_as_element (Path ''/'' [''app'', ''src'']) ''Button'' Components) =
   [''components/Button/Button.tsx'', ''components/Button/Button.module.css'',
    ''components/Button/index.ts'']"
  by (simp add: get_relative_filenames_def get_relative_filename_def resolve_def path_str_def
        start_def parse_as_element_def truediv_def parse_parts_def splitroot_def Let_def)

lemma example_strips:
  "strip ''c'' = ''c''" "strip ''Button'' = ''Button''" "strip ''n'' = ''n''"
  "strip ''y'' = ''y''"
  by (simp_all add: strip_def isspace_def)

lemma strip_Nil: "strip [] = []"
  by (simp add: strip_def)

lemmas file_step_defs =
  create_def create_empty_file_def touch_def open_creat_def write_text_def read_text_def
  os_mkdir_def mkdir_exist_ok_def mkdir_parents.simps locate_def start_def names_entry_def parent_def is_dir_def
  stat_def truediv_def parse_parts_def splitroot_def

lemma example_element:
  "parse_as_element (Path ''/'' [''app'', ''src'']) ''Button'' Components =
     \<lparr>full_path = Path ''/'' [''app'', ''src'', ''components'', ''Button''], name = ''Button''\<rparr>"
  by (simp add: parse_as_element_def truediv_def parse_parts_def splitroot_def Let_def)

lemma example_create_all:
  "create_all [TSXFileCreator, CSSFileCreator, IndexFileCreator]
     \<lparr>full_path = Path ''/'' [''app'', ''src'', ''components'', ''Button''], name = ''Button''\<rparr>
     \<lparr>nodes = [[] \<mapsto> Dir], cwd = []\<rparr> =
   Inr \<lparr>nodes = [[] \<mapsto> Dir, [''app''] \<mapsto> Dir, [''app'', ''src''] \<mapsto> Dir,
                 [''app'', ''src'', ''components''] \<mapsto> Dir,
                 [''app'', ''src'', ''components'', ''Button''] \<mapsto> Dir,
                 [''app'', ''src'', ''components'', ''Button'', ''Button.tsx''] \<mapsto>
                   File (strip (tsx_template ''Button'')),
                 [''app'', ''src'', ''components'', ''Button'', ''Button.module.css''] \<mapsto>
                   File [],
                 [''app'', ''src'', ''components'', ''Button'', ''index.ts''] \<mapsto>
                   File (index_export ''Button'')],
        cwd = []\<rparr>"
  by (simp add: file_step_defs strip_Nil)

lemma ask_ok_declines:
  "(\<forall>x\<in>set junk. strip x \<notin> {''y'', ''Y'', '''', ''n'', ''N''}) \<Longrightarrow>
   strip s \<in> {''n'', ''N''} \<Longrightarrow>
   ask_ok filenames \<lparr>stdin = map Line junk @- (Line s ## rest), shown = out\<rparr> =
     Some (Inl (SystemExit NothingCreated),
       \<lparr>stdin = rest,
        shown = out @ concat (map (\<lambda>x. [FileList filenames, OkPrompt, NotUnderstood]) junk) @
                [FileList filenames, OkPrompt]\<rparr>)"
proof (induction junk arbitrary: out)
  case Nil
  from Nil(2) have "lower (strip s) = ''n''" by (simp add: lower_eq_n)
  then show ?case by (simp add: ask_ok_Line)
next
  case (Cons x junk)
  from Cons.prems(1) have x: "lower (strip x) \<noteq> ''y''" "lower (strip x) \<noteq> []"
      "lower (strip x) \<noteq> ''n''"
    by (simp_all add: lower_eq_y lower_eq_n lower_eq_Nil)
  from Cons.prems(1) have rest: "\<forall>x\<in>set junk. strip x \<notin> {''y'', ''Y'', '''', ''n'', ''N''}"
    by simp
  show ?case
    using Cons.IH [OF rest Cons.prems(2),
        of "out @ [FileList filenames, OkPrompt, NotUnderstood]"] x
    by (simp add: ask_ok_Line)
qed

text \<open>
  Claim C6, as amended. In every run, from every filesystem: when the element has been
  asked for and the user answers \<open>n\<close> or \<open>N\<close> at the confirmation prompt, after any
  number of lines that the prompt does not know and asks again for, \<open>main\<close> ends with
  the exit and the filesystem is the one the run started with: no file or directory
  has been made or changed. More generally the filesystem is unchanged in every run
  that ends in anything but the return of \<open>main\<close> or an error of a file creator.
\<close>

theorem cancel_leaves_filesystem:
  "((\<forall>x\<in>set junk. strip x \<notin> {''y'', ''Y'', '''', ''n'', ''N''}) \<and>
    strip s \<in> {''n'', ''N''} \<and>
    ask src t = Some (Inr e, \<lparr>stdin = map Line junk @- (Line s ## rest), shown = out\<rparr>)
    \<longrightarrow> main src fs t =
          Some (Inl (SystemExit NothingCreated), fs,
            \<lparr>stdin = rest,
             shown = out @
               concat (map (\<lambda>x. [FileList (get_relative_filenames src fs
                                    [TSXFileCreator, CSSFileCreator, IndexFileCreator] e),
                                  OkPrompt, NotUnderstood]) junk) @
               [FileList (get_relative_filenames src fs
                            [TSXFileCreator, CSSFileCreator, IndexFileCreator] e),
                OkPrompt]\<rparr>)) \<and>
   (main src fs t = Some (r, fs', t') \<and> r \<noteq> Inr () \<and> (\<forall>err. r \<noteq> Inl (OSError err))
    \<longrightarrow> fs' = fs)"
proof (intro conjI impI)
  assume a: "(\<forall>x\<in>set junk. strip x \<notin> {''y'', ''Y'', '''', ''n'', ''N''}) \<and>
    strip s \<in> {''n'', ''N''} \<and>
    ask src t = Some (Inr e, \<lparr>stdin = map Line junk @- (Line s ## rest), shown = out\<rparr>)"
  from a have j: "\<forall>x\<in>set junk. strip x \<notin> {''y'', ''Y'', '''', ''n'', ''N''}"
    by (rule conjunct1)
  from a have s: "strip s \<in> {''n'', ''N''}" by (elim conjE)
  from a have q: "ask src t =
      Some (Inr e, \<lparr>stdin = map Line junk @- (Line s ## rest), shown = out\<rparr>)"
    by (elim conjE)
  show "main src fs t =
          Some (Inl (SystemExit NothingCreated), fs,
            \<lparr>stdin = rest,
             shown = out @
               concat (map (\<lambda>x. [FileList (get_relative_filenames src fs
                                    [TSXFileCreator, CSSFileCreator, IndexFileCreator] e),
                                  OkPrompt, NotUnderstood]) junk) @
               [FileList (get_relative_filenames src fs
                            [TSXFileCreator, CSSFileCreator, IndexFileCreator] e),
                OkPrompt]\<rparr>)"
    using q ask_ok_declines [OF j s] by (rule main_declined)
next
  assume "main src fs t = Some (r, fs', t') \<and> r \<noteq> Inr () \<and> (\<forall>err. r \<noteq> Inl (OSError err))"
  then show "fs' = fs" using main_before_writes [of src fs t r fs' t'] by blast
qed

theorem cancel_leaves_filesystem_witness:
  "main (Path ''/'' [''app'', ''src'']) \<lparr>nodes = [[] \<mapsto> Dir], cwd = []\<rparr>
     \<lparr>stdin = Line ''c'' ## Line ''Button'' ## Line ''maybe'' ## Line ''n'' ##
              sconst EndOfInput,
      shown = []\<rparr> =
   Some (Inl (SystemExit NothingCreated), \<lparr>nodes = [[] \<mapsto> Dir], cwd = []\<rparr>,
     \<lparr>stdin = sconst EndOfInput,
      shown = [BaseFolderPrompt, ElementPrompt Components,
               FileList [''components/Button/Button.tsx'',
                         ''components/Button/Button.module.css'',
                         ''components/Button/index.ts''],
               OkPrompt, NotUnderstood,
               FileList [''components/Button/Button.tsx'',
                         ''components/Button/Button.module.css'',
                         ''components/Button/index.ts''],
               OkPrompt]\<rparr>)"
proof -
  let ?src = "Path ''/'' [''app'', ''src'']"
  let ?fs = "\<lparr>nodes = [[] \<mapsto> Dir], cwd = []\<rparr>"
  let ?e = "parse_as_element ?src ''Button'' Components"
  let ?t = "\<lparr>stdin = Line ''c'' ## Line ''Button'' ## Line ''maybe'' ## Line ''n'' ##
                     sconst EndOfInput,
             shown = []\<rparr>"
  let ?fl = "FileList [''components/Button/Button.tsx'',
                       ''components/Button/Button.module.css'',
                       ''components/Button/index.ts'']"
  let ?t2 = "\<lparr>stdin = sconst EndOfInput,
              shown = [BaseFolderPrompt, ElementPrompt Components, ?fl, OkPrompt,
                       NotUnderstood, ?fl, OkPrompt]\<rparr>"
  have a: "ask ?src ?t =
             Some (Inr ?e, \<lparr>stdin = map Line [''maybe''] @- (Line ''n'' ## sconst EndOfInput),
                            shown = [BaseFolderPrompt, ElementPrompt Components]\<rparr>)"
    by (simp add: ask_Line_Line example_strips)
  have j: "\<forall>x\<in>set [''maybe'']. strip x \<notin> {''y'', ''Y'', '''', ''n'', ''N''}"
    by (simp add: strip_def isspace_def)
  have s: "strip ''n'' \<in> {''n'', ''N''}" by (simp add: example_strips)
  have "main ?src ?fs ?t = Some (Inl (SystemExit NothingCreated), ?fs, ?t2)"
    using cancel_leaves_filesystem
      [of "[''maybe'']" "''n''" ?src ?t ?e "sconst EndOfInput"
          "[BaseFolderPrompt, ElementPrompt Components]" ?fs
          "Inl (SystemExit NothingCreated)" ?fs ?t2] a j s
    unfolding example_filenames by simp
  then show ?thesis .
qed

text \<open>
  Claim C6 as the specification states it fails: in the run with the answers \<open>c\<close>,
  \<open>Button\<close>, \<open>no\<close> and the empty line, the answer \<open>no\<close> does not end the program: the
  prompt writes the error message and asks again, the empty line confirms, \<open>main\<close>
  returns, and the filesystem holds the four directories and the three files that it
  did not hold before the run.
\<close>

theorem cancel_leaves_filesystem_counterexample:
  \<open>main (Path ''/'' [''app'', ''src'']) \<lparr>nodes = [[] \<mapsto> Dir], cwd = []\<rparr>
     \<lparr>stdin = Line ''c'' ## Line ''Button'' ## Line ''no'' ## Line '''' ## sconst EndOfInput,
      shown = []\<rparr> =
   Some (Inr (),
     \<lparr>nodes = [[] \<mapsto> Dir, [''app''] \<mapsto> Dir, [''app'', ''src''] \<mapsto> Dir,
               [''app'', ''src'', ''components''] \<mapsto> Dir,
               [''app'', ''src'', ''components'', ''Button''] \<mapsto> Dir,
               [''app'', ''src'', ''components'', ''Button'', ''Button.tsx''] \<mapsto>
                 File (strip (tsx_template ''Button'')),
               [''app'', ''src'', ''components'', ''Button'', ''Button.module.css''] \<mapsto>
                 File [],
               [''app'', ''src'', ''components'', ''Button'', ''index.ts''] \<mapsto>
                 File ''export {default} from "./Button";''],
      cwd = []\<rparr>,
     \<lparr>stdin = sconst EndOfInput,
      shown = [BaseFolderPrompt, ElementPrompt Components,
               FileList [''components/Button/Button.tsx'',
                         ''components/Button/Button.module.css'',
                         ''components/Button/index.ts''],
               OkPrompt, NotUnderstood,
               FileList [''components/Button/Button.tsx'',
                         ''components/Button/Button.module.css'',
                         ''components/Button/index.ts''],
               OkPrompt, AllCreated]\<rparr>) \<and>
   \<lparr>nodes = [[] \<mapsto> Dir, [''app''] \<mapsto> Dir, [''app'', ''src''] \<mapsto> Dir,
             [''app'', ''src'', ''components''] \<mapsto> Dir,
             [''app'', ''src'', ''components'', ''Button''] \<mapsto> Dir,
             [''app'', ''src'', ''components'', ''Button'', ''Button.tsx''] \<mapsto>
               File (strip (tsx_template ''Button'')),
             [''app'', ''src'', ''components'', ''Button'', ''Button.module.css''] \<mapsto>
               File [],
             [''app'', ''src'', ''components'', ''Button'', ''index.ts''] \<mapsto>
               File ''export {default} from "./Button";''],
    cwd = []\<rparr> \<noteq> \<lparr>nodes = [[] \<mapsto> Dir], cwd = []\<rparr>\<close>
  (is "main ?src ?fs0 ?t = Some (Inr (), ?fs', ?t') \<and> ?fs' \<noteq> ?fs0")
proof -
  have st: "strip ''no'' = ''no''" "strip [] = []"
    by (simp_all add: strip_def isspace_def)
  have m: "main ?src ?fs0 ?t = Some (Inr (), ?fs', ?t')"
    unfolding main_def Let_def
    by (simp add: ask_Line_Line example_strips st example_filenames [unfolded example_element]
          example_element example_create_all ask_ok_Line lower_eq_y lower_eq_n lower_eq_Nil
          py_print_def index_export_def
          del: create_all.simps)
  have "nodes ?fs' [''app''] \<noteq> nodes ?fs0 [''app'']" by simp
  then have d: "?fs' \<noteq> ?fs0" by metis
  show ?thesis using m d by (rule conjI)
qed


section \<open>The exit status\<close>

text \<open>
  Claim C5, as amended. When the user declines at the confirmation prompt the program
  ends with the exit that carries the text about nothing being created: the
  interpreter writes the text to standard error and the exit status is 1. A run in
  which \<open>main\<close> returns ends with the exit status 0.
\<close>

theorem decline_exit_status:
  "(ask src t = Some (Inr e, t1) \<and>
    ask_ok (get_relative_filenames src fs
              [TSXFileCreator, CSSFileCreator, IndexFileCreator] e) t1 =
      Some (Inl (SystemExit msg), t2)
    \<longrightarrow> script src fs t = Some (1, fs, py_print msg t2)) \<and>
   (main src fs t = Some (Inr (), fs', t') \<longrightarrow> script src fs t = Some (0, fs', t'))"
  using main_declined [of src t e t1 fs msg t2]
  by (auto simp: script_def)

theorem decline_exit_status_witness:
  "script (Path ''/'' [''app'', ''src'']) \<lparr>nodes = [[] \<mapsto> Dir], cwd = []\<rparr>
     \<lparr>stdin = Line ''c'' ## Line ''Button'' ## Line ''n'' ## sconst EndOfInput, shown = []\<rparr> =
   Some (1, \<lparr>nodes = [[] \<mapsto> Dir], cwd = []\<rparr>,
     \<lparr>stdin = sconst EndOfInput,
      shown = [BaseFolderPrompt, ElementPrompt Components,
               FileList [''components/Button/Button.tsx'',
                         ''components/Button/Button.module.css'',
                         ''components/Button/index.ts''],
               OkPrompt, NothingCreated]\<rparr>) \<and>
   script (Path ''/'' [''app'', ''src'']) \<lparr>nodes = [[] \<mapsto> Dir], cwd = []\<rparr>
     \<lparr>stdin = Line ''c'' ## Line ''Button'' ## Line ''y'' ## sconst EndOfInput, shown = []\<rparr> =
   Some (0,
     \<lparr>nodes = [[] \<mapsto> Dir, [''app''] \<mapsto> Dir, [''app'', ''src''] \<mapsto> Dir,
               [''app'', ''src'', ''components''] \<mapsto> Dir,
               [''app'', ''src'', ''components'', ''Button''] \<mapsto> Dir,
               [''app'', ''src'', ''components'', ''Button'', ''Button.tsx''] \<mapsto>
                 File (strip (tsx_template ''Button'')),
               [''app'', ''src'', ''components'', ''Button'', ''Button.module.css''] \<mapsto>
                 File [],
               [''app'', ''src'', ''components'', ''Button'', ''index.ts''] \<mapsto>
                 File (index_export ''Button'')],
      cwd = []\<rparr>,
     \<lparr>stdin = sconst EndOfInput,
      shown = [BaseFolderPrompt, ElementPrompt Components,
               FileList [''components/Button/Button.tsx'',
                         ''components/Button/Button.module.css'',
                         ''components/Button/index.ts''],
               OkPrompt, AllCreated]\<rparr>)"
proof -
  let ?src = "Path ''/'' [''app'', ''src'']"
  let ?fs = "\<lparr>nodes = [[] \<mapsto> Dir], cwd = []\<rparr>"
  let ?e = "parse_as_element ?src ''Button'' Components"
  let ?tn = "\<lparr>stdin = Line ''c'' ## Line ''Button'' ## Line ''n'' ## sconst EndOfInput,
              shown = []\<rparr>"
  let ?ty = "\<lparr>stdin = Line ''c'' ## Line ''Button'' ## Line ''y'' ## sconst EndOfInput,
              shown = []\<rparr>"
  let ?t1 = "\<lparr>stdin = Line ''n'' ## sconst EndOfInput,
              shown = [BaseFolderPrompt, ElementPrompt Components]\<rparr>"
  let ?fl = "FileList [''components/Button/Button.tsx'',
                       ''components/Button/Button.module.css'',
                       ''components/Button/index.ts'']"
  let ?t2 = "\<lparr>stdin = sconst EndOfInput,
              shown = [BaseFolderPrompt, ElementPrompt Components, ?fl, OkPrompt]\<rparr>"
  have a: "ask ?src ?tn = Some (Inr ?e, ?t1)"
    by (simp add: ask_Line_Line example_strips)
  have b: "ask_ok (get_relative_filenames ?src ?fs
                     [TSXFileCreator, CSSFileCreator, IndexFileCreator] ?e) ?t1 =
             Some (Inl (SystemExit NothingCreated), ?t2)"
    unfolding example_filenames
    by (simp add: ask_ok_Line example_strips lower_eq_y lower_eq_n lower_eq_Nil)
  have c: "main ?src ?fs ?ty =
             Some (Inr (), projr (create_all [TSXFileCreator, CSSFileCreator, IndexFileCreator]
                      \<lparr>full_path = Path ''/'' [''app'', ''src'', ''components'', ''Button''],
                       name = ''Button''\<rparr> ?fs),
               py_print AllCreated ?t2)"
    unfolding main_def Let_def
    by (simp add: ask_Line_Line example_strips example_filenames [unfolded example_element]
          example_element example_create_all ask_ok_Line lower_eq_y lower_eq_n lower_eq_Nil
          del: create_all.simps)
  have d1: "script ?src ?fs ?tn = Some (1, ?fs, py_print NothingCreated ?t2)"
    using decline_exit_status [of ?src ?tn ?e ?t1 ?fs NothingCreated ?t2] a b by blast
  have d2: "script ?src ?fs ?ty =
              Some (0, projr (create_all [TSXFileCreator, CSSFileCreator, IndexFileCreator]
                      \<lparr>full_path = Path ''/'' [''app'', ''src'', ''components'', ''Button''],
                       name = ''Button''\<rparr> ?fs),
                py_print AllCreated ?t2)"
    using decline_exit_status [of ?src ?tn ?e ?t1 ?fs NothingCreated ?t2] c
      decline_exit_status [of ?src ?ty ?e ?t1 ?fs NothingCreated ?t2]
    by blast
  show ?thesis
    unfolding d1 d2 example_create_all by (simp add: py_print_def)
qed

text \<open>
  Claim C5 as the specification states it fails: in the run with the answers \<open>c\<close>,
  \<open>Button\<close> and \<open>n\<close> the exit status is 1, not 0.
\<close>

theorem decline_exit_status_counterexample:
  "script (Path ''/'' [''app'', ''src'']) \<lparr>nodes = [[] \<mapsto> Dir], cwd = []\<rparr>
     \<lparr>stdin = Line ''c'' ## Line ''Button'' ## Line ''n'' ## sconst EndOfInput, shown = []\<rparr> =
   Some (1, \<lparr>nodes = [[] \<mapsto> Dir], cwd = []\<rparr>,
     \<lparr>stdin = sconst EndOfInput,
      shown = [BaseFolderPrompt, ElementPrompt Components,
               FileList [''components/Button/Button.tsx'',
                         ''components/Button/Button.module.css'',
                         ''components/Button/index.ts''],
               OkPrompt, NothingCreated]\<rparr>)"
  unfolding script_def main_def Let_def
  by (simp add: ask_Line_Line example_strips example_filenames ask_ok_Line
        lower_eq_y lower_eq_n lower_eq_Nil py_print_def)


section \<open>Facts about the filesystem steps\<close>

lemma walk_mono:
  "walk m s ns = Inr k \<Longrightarrow> (\<And>c. m c = Some Dir \<Longrightarrow> m' c = Some Dir) \<Longrightarrow>
   walk m' s ns = Inr k"
proof (induction ns arbitrary: s)
  case Nil
  then show ?case by simp
next
  case (Cons x xs)
  from Cons.prems(1) have d: "m s = Some Dir"
    by (auto split: option.splits node.splits)
  then have d': "m' s = Some Dir" by (rule Cons.prems(2))
  from Cons.prems(1) d
  have "walk m (if x = ''..'' then butlast s else s @ [x]) xs = Inr k" by simp
  then have "walk m' (if x = ''..'' then butlast s else s @ [x]) xs = Inr k"
    using Cons.prems(2) by (rule Cons.IH)
  then show ?case using d' by simp
qed

lemma walk_append:
  "walk m s (ns @ ms) = (case walk m s ns of Inl e \<Rightarrow> Inl e | Inr c \<Rightarrow> walk m c ms)"
  by (induction ns arbitrary: s) (auto split: option.splits node.splits)

lemma walk_snoc_Inr:
  assumes "walk m s (ns @ [x]) = Inr k"
  shows "\<exists>c. walk m s ns = Inr c \<and> m c = Some Dir \<and>
             k = (if x = ''..'' then butlast c else c @ [x])"
  using assms unfolding walk_append
  by (auto split: sum.splits option.splits node.splits if_splits)

lemma walk_no_dotdot:
  "''..'' \<notin> set ns \<Longrightarrow> walk m s ns = Inr k \<Longrightarrow> k = s @ ns"
proof (induction ns arbitrary: s)
  case Nil
  then show ?case by simp
next
  case (Cons x xs)
  from Cons.prems have x: "x \<noteq> ''..''" and xs: "''..'' \<notin> set xs" by auto
  from Cons.prems(2) x have "walk m (s @ [x]) xs = Inr k"
    by (auto split: option.splits node.splits)
  with xs have "k = (s @ [x]) @ xs" by (rule Cons.IH)
  then show ?case by simp
qed

lemma dirs_added_refl: "dirs_added fs fs"
  by (simp add: dirs_added_def)

lemma dirs_added_trans: "dirs_added a b \<Longrightarrow> dirs_added b c \<Longrightarrow> dirs_added a c"
  unfolding dirs_added_def by metis

lemma dirs_added_cwd: "dirs_added fs fs' \<Longrightarrow> cwd fs' = cwd fs"
  by (simp add: dirs_added_def)

lemma dirs_added_nodes:
  "dirs_added fs fs' \<Longrightarrow> nodes fs' k = nodes fs k \<or> (nodes fs k = None \<and> nodes fs' k = Some Dir)"
  by (simp add: dirs_added_def)

lemma dirs_added_Some: "dirs_added fs fs' \<Longrightarrow> nodes fs k = Some n \<Longrightarrow> nodes fs' k = Some n"
  using dirs_added_nodes [of fs fs' k] by auto

lemma dirs_added_File: "dirs_added fs fs' \<Longrightarrow> nodes fs' k = Some (File c) \<Longrightarrow> nodes fs k = Some (File c)"
  using dirs_added_nodes [of fs fs' k] by auto

lemma dirs_added_None: "dirs_added fs fs' \<Longrightarrow> nodes fs' k = None \<Longrightarrow> nodes fs k = None"
  using dirs_added_nodes [of fs fs' k] by auto

lemma dirs_added_start: "dirs_added fs fs' \<Longrightarrow> start fs' p = start fs p"
  by (simp add: start_def dirs_added_def)

lemma dirs_added_locate:
  assumes "dirs_added fs fs'" and "locate fs p = Inr k"
  shows "locate fs' p = Inr k"
  unfolding locate_def dirs_added_start [OF assms(1)]
  using assms(2) unfolding locate_def
  by (rule walk_mono) (rule dirs_added_Some [OF assms(1)])

lemma dirs_added_stat:
  "dirs_added fs fs' \<Longrightarrow> stat fs p = Inr n \<Longrightarrow> stat fs' p = Inr n"
  by (auto simp: stat_def dirs_added_locate dirs_added_Some split: sum.splits option.splits)

lemma dirs_added_read_text:
  "dirs_added fs fs' \<Longrightarrow> read_text fs p = Inr c \<Longrightarrow> read_text fs' p = Inr c"
  by (auto simp: read_text_def dirs_added_stat split: sum.splits node.splits)

lemma os_mkdirD:
  assumes "os_mkdir fs p = Inr fs'"
  shows "\<exists>k. locate fs p = Inr k \<and> nodes fs k = None \<and> names_entry p \<and>
             fs' = fs\<lparr>nodes := (nodes fs)(k \<mapsto> Dir)\<rparr>"
  using assms by (auto simp: os_mkdir_def split: sum.splits option.splits if_splits)

lemma dirs_added_upd:
  "nodes fs k = None \<Longrightarrow> dirs_added fs (fs\<lparr>nodes := (nodes fs)(k \<mapsto> Dir)\<rparr>)"
  by (simp add: dirs_added_def)

lemma os_mkdir_dirs_added:
  assumes "os_mkdir fs p = Inr fs'"
  shows "dirs_added fs fs'"
proof -
  from os_mkdirD [OF assms] obtain k where
    "nodes fs k = None" "fs' = fs\<lparr>nodes := (nodes fs)(k \<mapsto> Dir)\<rparr>"
    by blast
  then show ?thesis by (simp add: dirs_added_upd)
qed

lemma mkdir_exist_okD:
  "mkdir_exist_ok fs p = Inr fs' \<Longrightarrow> fs' = fs \<or> os_mkdir fs p = Inr fs'"
  by (auto simp: mkdir_exist_ok_def split: sum.splits if_splits)

lemma mkdir_exist_ok_dirs_added: "mkdir_exist_ok fs p = Inr fs' \<Longrightarrow> dirs_added fs fs'"
  using mkdir_exist_okD [of fs p fs'] os_mkdir_dirs_added [of fs p fs'] dirs_added_refl [of fs]
  by auto

lemma mkdir_parentsD:
  assumes "mkdir_parents fs p = Inr fs'"
  shows "os_mkdir fs p = Inr fs' \<or>
         (fs' = fs \<and> is_dir fs p) \<or>
         (parent p \<noteq> p \<and> os_mkdir fs p = Inl FileNotFoundError \<and>
          (\<exists>fs1. mkdir_parents fs (parent p) = Inr fs1 \<and> mkdir_exist_ok fs1 p = Inr fs'))"
  using assms
  by (subst (asm) mkdir_parents.simps) (auto split: sum.splits if_splits)

lemma mkdir_parents_dirs_added: "mkdir_parents fs p = Inr fs' \<Longrightarrow> dirs_added fs fs'"
proof (induction "length (names p)" arbitrary: p fs' rule: less_induct)
  case less
  from mkdir_parentsD [OF less.prems]
  consider (made) "os_mkdir fs p = Inr fs'"
    | (there) "fs' = fs"
    | (rec) fs1 where "parent p \<noteq> p" "mkdir_parents fs (parent p) = Inr fs1"
        "mkdir_exist_ok fs1 p = Inr fs'"
    by blast
  then show ?case
  proof cases
    case made
    then show ?thesis by (rule os_mkdir_dirs_added)
  next
    case there
    then show ?thesis by (simp add: dirs_added_refl)
  next
    case rec
    from rec(1) have "names p \<noteq> []" by (cases p) (auto simp: parent_def)
    then have "length (names (parent p)) < length (names p)" by (simp add: parent_def)
    then have "dirs_added fs fs1" using rec(2) by (rule less.hyps)
    moreover have "dirs_added fs1 fs'" using rec(3) by (rule mkdir_exist_ok_dirs_added)
    ultimately show ?thesis by (rule dirs_added_trans)
  qed
qed

lemma start_parent: "start fs (parent p) = start fs p"
  by (simp add: start_def parent_def)

lemma os_mkdir_changed:
  assumes "os_mkdir fs p = Inr fs'" and "''..'' \<notin> set (names p)"
    and "nodes fs' k \<noteq> nodes fs k"
  shows "k = start fs p @ names p"
proof -
  from os_mkdirD [OF assms(1)] obtain k' where
    l: "locate fs p = Inr k'" and fs': "fs' = fs\<lparr>nodes := (nodes fs)(k' \<mapsto> Dir)\<rparr>"
    by blast
  from l assms(2) have "k' = start fs p @ names p"
    unfolding locate_def by (metis walk_no_dotdot)
  moreover from assms(3) fs' have "k = k'" by (auto split: if_splits)
  ultimately show ?thesis by simp
qed

lemma mkdir_parents_changed:
  "mkdir_parents fs p = Inr fs' \<Longrightarrow> ''..'' \<notin> set (names p) \<Longrightarrow>
   nodes fs' k \<noteq> nodes fs k \<Longrightarrow> length k \<le> length (start fs p) + length (names p)"
proof (induction "length (names p)" arbitrary: p fs' rule: less_induct)
  case less
  from mkdir_parentsD [OF less.prems(1)]
  consider (made) "os_mkdir fs p = Inr fs'"
    | (there) "fs' = fs"
    | (rec) fs1 where "parent p \<noteq> p" "mkdir_parents fs (parent p) = Inr fs1"
        "mkdir_exist_ok fs1 p = Inr fs'"
    by blast
  then show ?case
  proof cases
    case made
    then show ?thesis using os_mkdir_changed less.prems(2,3) by fastforce
  next
    case there
    then show ?thesis using less.prems(3) by simp
  next
    case rec
    from rec(1) have ne: "names p \<noteq> []" by (cases p) (auto simp: parent_def)
    then have len: "length (names (parent p)) < length (names p)" by (simp add: parent_def)
    have nd: "''..'' \<notin> set (names (parent p))"
      using less.prems(2) by (auto simp: parent_def dest: in_set_butlastD)
    have da: "dirs_added fs fs1" using rec(2) by (rule mkdir_parents_dirs_added)
    show ?thesis
    proof (cases "nodes fs1 k = nodes fs k")
      case True
      then have ch: "nodes fs' k \<noteq> nodes fs1 k" using less.prems(3) by simp
      then have "os_mkdir fs1 p = Inr fs'" using mkdir_exist_okD [OF rec(3)] by auto
      then have "k = start fs1 p @ names p"
        using less.prems(2) ch by (rule os_mkdir_changed)
      then show ?thesis by (simp add: dirs_added_start [OF da])
    next
      case False
      then have "length k \<le> length (start fs (parent p)) + length (names (parent p))"
        using less.hyps [OF len rec(2) nd] by simp
      then show ?thesis using len by (simp add: start_parent)
    qed
  qed
qed

lemma start_nodes_update: "start (fs\<lparr>nodes := m\<rparr>) p = start fs p"
  by (simp add: start_def)

lemma locate_upd:
  assumes "locate fs p = Inr k'" and "nodes fs k \<noteq> Some Dir"
  shows "locate (fs\<lparr>nodes := (nodes fs)(k \<mapsto> v)\<rparr>) p = Inr k'"
proof -
  have "walk ((nodes fs)(k \<mapsto> v)) (start fs p) (names p) = Inr k'"
    using assms(1) unfolding locate_def
    by (rule walk_mono) (use assms(2) in auto)
  then show ?thesis by (simp add: locate_def start_nodes_update)
qed

lemma touchD:
  assumes "touch fs p = Inr fs'"
  shows "(fs' = fs \<and> (\<exists>n. stat fs p = Inr n)) \<or>
         (\<exists>k. locate fs p = Inr k \<and> nodes fs k = None \<and> names_entry p \<and>
              fs' = fs\<lparr>nodes := (nodes fs)(k \<mapsto> File [])\<rparr>)"
  using assms
  by (auto simp: touch_def open_creat_def stat_def
      split: sum.splits option.splits node.splits if_splits prod.splits)


lemma read_textD:
  "read_text fs p = Inr c \<Longrightarrow>
   \<exists>k c0. locate fs p = Inr k \<and> nodes fs k = Some (File c0) \<and> c = universal_newlines c0"
  by (auto simp: read_text_def stat_def split: sum.splits option.splits node.splits)

lemma read_textI:
  "locate fs p = Inr k \<Longrightarrow> nodes fs k = Some (File c) \<Longrightarrow>
   read_text fs p = Inr (universal_newlines c)"
  by (simp add: read_text_def stat_def)



lemma touch_exists:
  assumes "touch fs p = Inr fs'"
  shows "\<exists>n. stat fs' p = Inr n"
proof -
  from touchD [OF assms] show ?thesis
  proof (elim disjE conjE exE)
    fix n assume "fs' = fs" "stat fs p = Inr n"
    then show ?thesis by blast
  next
    fix k assume l: "locate fs p = Inr k" and n: "nodes fs k = None"
      and fs': "fs' = fs\<lparr>nodes := (nodes fs)(k \<mapsto> File [])\<rparr>"
    have "locate fs' p = Inr k" unfolding fs' by (rule locate_upd [OF l]) (simp add: n)
    then show ?thesis by (simp add: stat_def fs')
  qed
qed






section \<open>Facts about the file names and the touch\<close>

lemma split_append_nosep:
  "CHR ''/'' \<notin> set suf \<Longrightarrow> split (a @ suf) = butlast (split a) @ [last (split a) @ suf]"
proof (induction a)
  case Nil
  then show ?case by (simp add: split_no_sep)
next
  case (Cons c a)
  obtain y ys where sp: "split a = y # ys"
    using split_not_Nil [of a] by (cases "split a") auto
  show ?case using Cons sp by (cases ys) auto
qed

lemma dropWhile_sep_nosep:
  "CHR ''/'' \<notin> set suf \<Longrightarrow> dropWhile (\<lambda>c. c = CHR ''/'') suf = suf"
  by (cases suf) auto

lemma snd_splitroot:
  "snd (splitroot s) =
     (if s \<noteq> [] \<and> hd s = CHR ''/'' then dropWhile (\<lambda>c. c = CHR ''/'') s else s)"
  by (simp add: splitroot_def Let_def)

lemma dropWhile_sep_append:
  assumes "CHR ''/'' \<notin> set suf"
  shows "\<exists>a. dropWhile (\<lambda>c. c = CHR ''/'') (n @ suf) = a @ suf"
proof (cases "\<forall>x\<in>set n. x = CHR ''/''")
  case True
  then have "dropWhile (\<lambda>c. c = CHR ''/'') (n @ suf) = [] @ suf"
    using assms by (simp add: dropWhile_append dropWhile_sep_nosep)
  then show ?thesis by (rule exI)
next
  case False
  then have "dropWhile (\<lambda>c. c = CHR ''/'') (n @ suf) = dropWhile (\<lambda>c. c = CHR ''/'') n @ suf"
    by (auto simp: dropWhile_append)
  then show ?thesis by (rule exI)
qed

lemma splitroot_suffix:
  assumes "CHR ''/'' \<notin> set suf"
  shows "\<exists>a. snd (splitroot (n @ suf)) = a @ suf"
proof (cases "n @ suf \<noteq> [] \<and> hd (n @ suf) = CHR ''/''")
  case True
  then show ?thesis
    unfolding snd_splitroot using dropWhile_sep_append [OF assms, of n] by simp
next
  case False
  then have "snd (splitroot (n @ suf)) = n @ suf"
    unfolding snd_splitroot by auto
  then show ?thesis by (rule exI)
qed

lemma names_entry_parse_parts:
  assumes "CHR ''/'' \<notin> set suf" and "2 < length suf"
  shows "names_entry (parse_parts (n @ suf))"
proof -
  from splitroot_suffix [OF assms(1)] obtain a where
    a: "snd (splitroot (n @ suf)) = a @ suf" by blast
  let ?l = "last (split a) @ suf"
  have l: "?l \<noteq> [] \<and> ?l \<noteq> ''.'' \<and> ?l \<noteq> ''..''"
    using assms(2) by (auto dest: arg_cong [where f = length])
  have "names (parse_parts (n @ suf)) =
          filter (\<lambda>x. x \<noteq> [] \<and> x \<noteq> ''.'') (split (a @ suf))"
    using a by (simp add: parse_parts_def split_beta)
  also have "\<dots> = filter (\<lambda>x. x \<noteq> [] \<and> x \<noteq> ''.'') (butlast (split a)) @ [?l]"
    using l by (simp add: split_append_nosep [OF assms(1)])
  finally show ?thesis using l by (simp add: names_entry_def)
qed

lemma names_entry_truediv:
  "names_entry (parse_parts key) \<Longrightarrow> names_entry (truediv p key)"
  by (auto simp: truediv_def Let_def names_entry_def)

lemma names_entry_filename: "names_entry (get_absolute_filename fc e)"
proof (cases fc)
  case TSXFileCreator
  then show ?thesis
    using names_entry_parse_parts [of "''.tsx''" "name e"]
    by (simp add: names_entry_truediv)
next
  case CSSFileCreator
  then show ?thesis
    using names_entry_parse_parts [of "''.module.css''" "name e"]
    by (simp add: names_entry_truediv)
next
  case IndexFileCreator
  then show ?thesis
    using names_entry_parse_parts [of "''index.ts''" "[]"]
    by (simp add: names_entry_truediv)
qed

lemma parent_is_dir:
  assumes "locate fs p = Inr k" and "names p \<noteq> []"
  shows "stat fs (parent p) = Inr Dir"
proof -
  from assms(2) have ns: "names p = butlast (names p) @ [last (names p)]" by simp
  from assms(1) have "walk (nodes fs) (start fs p) (butlast (names p) @ [last (names p)]) = Inr k"
    unfolding locate_def using ns by simp
  from walk_snoc_Inr [OF this] obtain c where
    "walk (nodes fs) (start fs p) (butlast (names p)) = Inr c" "nodes fs c = Some Dir"
    by blast
  then show ?thesis
    by (simp add: stat_def locate_def start_parent) (simp add: parent_def)
qed

lemma mkdir_parents_existing: "stat fs p = Inr Dir \<Longrightarrow> mkdir_parents fs p = Inr fs"
  by (subst mkdir_parents.simps)
     (auto simp: os_mkdir_def is_dir_def stat_def split: sum.splits option.splits)

lemma touch_existing: "stat fs p = Inr n \<Longrightarrow> touch fs p = Inr fs"
  by (simp add: touch_def)

lemma create_CSS_steps:
  assumes "create CSSFileCreator e fs = Inr fs'"
  shows "\<exists>fs1. mkdir_parents fs (parent (get_absolute_filename CSSFileCreator e)) = Inr fs1 \<and>
           touch fs1 (get_absolute_filename CSSFileCreator e) = Inr fs'"
  using assms
  by (auto simp: create_def create_empty_file_def split: sum.splits)

lemma touch_files:
  assumes "touch fs1 p = Inr fs'"
  shows "(nodes fs1 k = Some (File c) \<longrightarrow> nodes fs' k = Some (File c)) \<and>
         (nodes fs' k = Some (File c) \<longrightarrow>
            nodes fs1 k = Some (File c) \<or> (nodes fs1 k = None \<and> c = []))"
  using touchD [OF assms] by (auto split: if_splits)

lemma touch_locate:
  assumes "touch fs1 p = Inr fs'"
  shows "\<exists>k. locate fs1 p = Inr k \<and> locate fs' p = Inr k \<and> nodes fs' k \<noteq> None \<and>
             (nodes fs1 k = None \<longrightarrow> nodes fs' k = Some (File [])) \<and>
             (nodes fs1 k \<noteq> None \<longrightarrow> fs' = fs1)"
proof -
  from touchD [OF assms] show ?thesis
  proof (elim disjE conjE exE)
    fix n assume "fs' = fs1" "stat fs1 p = Inr n"
    then show ?thesis by (auto simp: stat_def split: sum.splits option.splits)
  next
    fix k assume l: "locate fs1 p = Inr k" and n: "nodes fs1 k = None"
      and fs': "fs' = fs1\<lparr>nodes := (nodes fs1)(k \<mapsto> File [])\<rparr>"
    have "locate fs' p = Inr k" unfolding fs' by (rule locate_upd [OF l]) (simp add: n)
    then show ?thesis using l n by (simp add: fs')
  qed
qed

lemma butlast_shorter:
  "ns \<noteq> [] \<Longrightarrow> \<not> length (s @ ns) \<le> length s + length (butlast ns)"
  by (cases ns rule: rev_cases) simp_all


section \<open>When the steps return\<close>

lemma read_text_of_stat:
  "stat fs p = Inr n \<Longrightarrow>
   read_text fs p =
     (case n of Dir \<Rightarrow> Inl IsADirectoryError | File c \<Rightarrow> Inr (universal_newlines c))"
  by (simp add: read_text_def split: node.splits)

lemma write_text_File:
  "stat fs p = Inr (File c) \<Longrightarrow> \<exists>fs'. write_text fs p d = Inr fs'"
  by (auto simp: write_text_def open_creat_def stat_def split: sum.splits option.splits)

lemma locate_child:
  assumes "stat fs (parent p) = Inr Dir" and "names_entry p"
  shows "\<exists>k. locate fs p = Inr k"
proof -
  from assms(2) have ne: "names p \<noteq> []" and l: "last (names p) \<noteq> ''..''"
    by (simp_all add: names_entry_def)
  have np: "names (parent p) = butlast (names p)" by (simp add: parent_def)
  from assms(1) obtain c where
    w: "walk (nodes fs) (start fs p) (butlast (names p)) = Inr c" and d: "nodes fs c = Some Dir"
    unfolding stat_def locate_def start_parent np
    by (auto split: sum.splits option.splits)
  have "walk (nodes fs) (start fs p) (butlast (names p) @ [last (names p)]) =
          Inr (c @ [last (names p)])"
    unfolding walk_append using w d l by simp
  then show ?thesis using ne by (simp add: locate_def)
qed

lemma touch_makes_file:
  assumes "stat fs (parent p) = Inr Dir" and "names_entry p" and "stat fs p \<noteq> Inr Dir"
  shows "\<exists>fs2 c. touch fs p = Inr fs2 \<and> stat fs2 p = Inr (File c)"
proof -
  from locate_child [OF assms(1,2)] obtain k where k: "locate fs p = Inr k" by blast
  show ?thesis
  proof (cases "nodes fs k")
    case None
    let ?fs2 = "fs\<lparr>nodes := (nodes fs)(k \<mapsto> File [])\<rparr>"
    have "touch fs p = Inr ?fs2"
      using k None assms(2) by (simp add: touch_def stat_def open_creat_def)
    moreover have "locate ?fs2 p = Inr k" by (rule locate_upd [OF k]) (simp add: None)
    then have "stat ?fs2 p = Inr (File [])" by (simp add: stat_def)
    ultimately show ?thesis by blast
  next
    case (Some n)
    then have s: "stat fs p = Inr n" using k by (simp add: stat_def)
    with assms(3) obtain c where "n = File c" by (cases n) auto
    with s touch_existing [OF s] show ?thesis by blast
  qed
qed






text \<open>A creator returns when \<open>mkdir\<close> has left the directory in place and the file's
  path is not a directory.\<close>

lemma create_after_mkdir:
  assumes m: "mkdir_parents fs (parent (get_absolute_filename fc e)) = Inr fs1"
    and pd: "stat fs1 (parent (get_absolute_filename fc e)) = Inr Dir"
    and nd: "stat fs1 (get_absolute_filename fc e) \<noteq> Inr Dir"
  shows "\<exists>fs'. create fc e fs = Inr fs'"
proof -
  let ?q = "get_absolute_filename fc e"
  from touch_makes_file [OF pd names_entry_filename nd] obtain fs2 c where
    t: "touch fs1 ?q = Inr fs2" and s: "stat fs2 ?q = Inr (File c)" by blast
  have ce: "create_empty_file fc e fs = Inr fs2"
    by (simp add: create_empty_file_def m t)
  have r: "read_text fs2 ?q = Inr (universal_newlines c)" using s by (simp add: read_text_of_stat)
  have w: "\<And>d. \<exists>fs'. write_text fs2 ?q d = Inr fs'" using s by (rule write_text_File)
  have "\<exists>fs'. write_file_contents fc e fs2 = Inr fs'"
  proof (cases fc)
    case TSXFileCreator
    then show ?thesis using w by simp
  next
    case CSSFileCreator
    then show ?thesis by simp
  next
    case IndexFileCreator
    then show ?thesis using w r by simp
  qed
  then show ?thesis by (simp add: create_def ce)
qed



section \<open>The script file\<close>











section \<open>The index file\<close>

lemma create_empty_file_exists:
  assumes "create_empty_file fc e fs = Inr fs1"
  shows "\<exists>n. stat fs1 (get_absolute_filename fc e) = Inr n"
proof -
  from assms obtain fs0 where "touch fs0 (get_absolute_filename fc e) = Inr fs1"
    by (auto simp: create_empty_file_def split: sum.splits)
  then show ?thesis by (rule touch_exists)
qed

lemma write_index_fails:
  assumes "write_file_contents IndexFileCreator e fs1 = Inl (err, fs2)"
    and "stat fs1 (get_absolute_filename IndexFileCreator e) = Inr n"
  shows "err = IsADirectoryError \<and> fs2 = fs1 \<and> n = Dir"
proof (cases n)
  case Dir
  then show ?thesis using assms by (simp add: read_text_of_stat)
next
  case (File c)
  with assms(2) obtain fs' where
    "write_text fs1 (get_absolute_filename IndexFileCreator e) (index_export (name e)) = Inr fs'"
    using write_text_File by blast
  then show ?thesis using assms File by (simp add: read_text_of_stat split: if_splits)
qed

text \<open>
  Claim C10. For every element: when the first step of \<open>create\<close> of the index-file
  creator (the parent directories, then the touch) has returned, something is stored
  at the index file, so the read in the content step does not fail for a missing file
  or a missing directory: it fails only when the index file is a directory, and that
  is the only error \<open>create\<close> can then end with.
\<close>

theorem index_exists_before_read:
  "create_empty_file IndexFileCreator e fs = Inr fs1 \<Longrightarrow>
   (\<exists>n. stat fs1 (get_absolute_filename IndexFileCreator e) = Inr n) \<and>
   (\<forall>err. read_text fs1 (get_absolute_filename IndexFileCreator e) = Inl err
      \<longrightarrow> err = IsADirectoryError) \<and>
   (\<forall>err fs2. create IndexFileCreator e fs = Inl (err, fs2)
      \<longrightarrow> err = IsADirectoryError \<and> fs2 = fs1 \<and>
          stat fs1 (get_absolute_filename IndexFileCreator e) = Inr Dir)"
proof -
  assume a: "create_empty_file IndexFileCreator e fs = Inr fs1"
  then obtain n where n: "stat fs1 (get_absolute_filename IndexFileCreator e) = Inr n"
    using create_empty_file_exists by blast
  have r: "\<forall>err. read_text fs1 (get_absolute_filename IndexFileCreator e) = Inl err
             \<longrightarrow> err = IsADirectoryError"
    using n by (cases n) (simp_all add: read_text_of_stat)
  have c: "\<forall>err fs2. create IndexFileCreator e fs = Inl (err, fs2)
             \<longrightarrow> err = IsADirectoryError \<and> fs2 = fs1 \<and>
                 stat fs1 (get_absolute_filename IndexFileCreator e) = Inr Dir"
    using write_index_fails [OF _ n] n by (auto simp: create_def a)
  show ?thesis using n r c by blast
qed

theorem index_exists_before_read_witness:
  "create_empty_file IndexFileCreator
     \<lparr>full_path = Path ''/'' [''app'', ''src'', ''components'', ''Button''], name = ''Button''\<rparr>
     \<lparr>nodes = [[] \<mapsto> Dir], cwd = []\<rparr> =
   Inr \<lparr>nodes = [[] \<mapsto> Dir, [''app''] \<mapsto> Dir, [''app'', ''src''] \<mapsto> Dir,
               [''app'', ''src'', ''components''] \<mapsto> Dir,
               [''app'', ''src'', ''components'', ''Button''] \<mapsto> Dir,
               [''app'', ''src'', ''components'', ''Button'', ''index.ts''] \<mapsto> File []],
      cwd = []\<rparr> \<and>
   (\<exists>n. stat
      \<lparr>nodes = [[] \<mapsto> Dir, [''app''] \<mapsto> Dir, [''app'', ''src''] \<mapsto> Dir,
               [''app'', ''src'', ''components''] \<mapsto> Dir,
               [''app'', ''src'', ''components'', ''Button''] \<mapsto> Dir,
               [''app'', ''src'', ''components'', ''Button'', ''index.ts''] \<mapsto> File []],
       cwd = []\<rparr>
      (Path ''/'' [''app'', ''src'', ''components'', ''Button'', ''index.ts'']) = Inr n)"
proof -
  let ?e = "\<lparr>full_path = Path ''/'' [''app'', ''src'', ''components'', ''Button''],
             name = ''Button''\<rparr>"
  let ?fs1 = "\<lparr>nodes = [[] \<mapsto> Dir, [''app''] \<mapsto> Dir, [''app'', ''src''] \<mapsto> Dir,
               [''app'', ''src'', ''components''] \<mapsto> Dir,
               [''app'', ''src'', ''components'', ''Button''] \<mapsto> Dir,
               [''app'', ''src'', ''components'', ''Button'', ''index.ts''] \<mapsto> File []],
              cwd = []\<rparr>"
  have c: "create_empty_file IndexFileCreator ?e \<lparr>nodes = [[] \<mapsto> Dir], cwd = []\<rparr> = Inr ?fs1"
    by (simp add: file_step_defs)
  have q: "get_absolute_filename IndexFileCreator ?e =
             Path ''/'' [''app'', ''src'', ''components'', ''Button'', ''index.ts'']"
    by (simp add: truediv_def parse_parts_def splitroot_def)
  show ?thesis
    using index_exists_before_read [OF c] c unfolding q by blast
qed









text \<open>
  Claim C4, as amended. For every element and every filesystem: when \<open>create\<close> of
  the style-file creator returns, no text has been written: every file has the text it
  had, every new file is empty, and a style file that could be read before reads the
  same afterwards. Something is stored at the style file afterwards; if nothing was
  stored at its location before and the path has no \<open>..\<close> component, it is an empty
  file. (With a \<open>..\<close> component the location can be a directory that the creator's
  own \<open>mkdir\<close> makes on the way.) A second \<open>create\<close> returns and changes nothing.
\<close>

theorem css_create_touch_only:
  "create CSSFileCreator e fs = Inr fs' \<Longrightarrow>
   (\<forall>k c. nodes fs k = Some (File c) \<longrightarrow> nodes fs' k = Some (File c)) \<and>
   (\<forall>k c. nodes fs' k = Some (File c) \<longrightarrow>
      nodes fs k = Some (File c) \<or> (nodes fs k = None \<and> c = [])) \<and>
   (\<forall>c. read_text fs (get_absolute_filename CSSFileCreator e) = Inr c \<longrightarrow>
      read_text fs' (get_absolute_filename CSSFileCreator e) = Inr c) \<and>
   (\<exists>k. locate fs' (get_absolute_filename CSSFileCreator e) = Inr k \<and>
      nodes fs' k \<noteq> None \<and>
      (nodes fs k = None \<and> ''..'' \<notin> set (names (get_absolute_filename CSSFileCreator e))
         \<longrightarrow> nodes fs' k = Some (File []))) \<and>
   create CSSFileCreator e fs' = Inr fs'"
proof -
  let ?q = "get_absolute_filename CSSFileCreator e"
  assume a: "create CSSFileCreator e fs = Inr fs'"
  from create_CSS_steps [OF a] obtain fs1 where
    m: "mkdir_parents fs (parent ?q) = Inr fs1" and t: "touch fs1 ?q = Inr fs'"
    by blast
  have da: "dirs_added fs fs1" using m by (rule mkdir_parents_dirs_added)
  have ne: "names ?q \<noteq> []" using names_entry_filename [of CSSFileCreator e]
    by (simp add: names_entry_def)
  from touch_locate [OF t] obtain k where
    tl: "locate fs1 ?q = Inr k \<and> locate fs' ?q = Inr k \<and> nodes fs' k \<noteq> None \<and>
         (nodes fs1 k = None \<longrightarrow> nodes fs' k = Some (File [])) \<and>
         (nodes fs1 k \<noteq> None \<longrightarrow> fs' = fs1)" ..
  from tl have l1: "locate fs1 ?q = Inr k" by (rule conjunct1)
  from tl have l': "locate fs' ?q = Inr k" by (elim conjE)
  from tl have ex: "nodes fs' k \<noteq> None" by (elim conjE)
  from tl have made: "nodes fs1 k = None \<longrightarrow> nodes fs' k = Some (File [])" by (elim conjE)
  from tl have same: "nodes fs1 k \<noteq> None \<longrightarrow> fs' = fs1" by (elim conjE)
  have p1: "\<forall>k c. nodes fs k = Some (File c) \<longrightarrow> nodes fs' k = Some (File c)"
    using dirs_added_Some [OF da] touch_files [OF t] by blast
  have p2: "\<forall>k c. nodes fs' k = Some (File c) \<longrightarrow>
              nodes fs k = Some (File c) \<or> (nodes fs k = None \<and> c = [])"
    using dirs_added_File [OF da] dirs_added_None [OF da] touch_files [OF t] by blast
  have p3: "\<forall>c. read_text fs ?q = Inr c \<longrightarrow> read_text fs' ?q = Inr c"
  proof (intro allI impI)
    fix c assume "read_text fs ?q = Inr c"
    then have r1: "read_text fs1 ?q = Inr c" using da by (simp add: dirs_added_read_text)
    from read_textD [OF r1] l1 have "nodes fs1 k \<noteq> None" by auto
    then have "fs' = fs1" using same by simp
    then show "read_text fs' ?q = Inr c" using r1 by simp
  qed
  have p4: "nodes fs k = None \<and> ''..'' \<notin> set (names ?q) \<longrightarrow> nodes fs' k = Some (File [])"
  proof (intro impI, elim conjE)
    assume n: "nodes fs k = None" and nd: "''..'' \<notin> set (names ?q)"
    have k: "k = start fs ?q @ names ?q"
      using l1 nd unfolding locate_def dirs_added_start [OF da] by (metis walk_no_dotdot)
    have ndp: "''..'' \<notin> set (names (parent ?q))"
      using nd by (auto simp: parent_def dest: in_set_butlastD)
    have "nodes fs1 k = nodes fs k"
    proof (rule ccontr)
      assume "nodes fs1 k \<noteq> nodes fs k"
      from mkdir_parents_changed [OF m ndp this]
      have "length k \<le> length (start fs ?q) + length (butlast (names ?q))"
        by (simp add: start_parent) (simp add: parent_def)
      then show False unfolding k using butlast_shorter [OF ne] by blast
    qed
    then show "nodes fs' k = Some (File [])" using made n by simp
  qed
  have p5: "create CSSFileCreator e fs' = Inr fs'"
  proof -
    have "stat fs' (parent ?q) = Inr Dir" using l' ne by (rule parent_is_dir)
    then have "mkdir_parents fs' (parent ?q) = Inr fs'" by (rule mkdir_parents_existing)
    moreover obtain n where "stat fs' ?q = Inr n"
      using l' ex by (auto simp: stat_def)
    then have "touch fs' ?q = Inr fs'" by (rule touch_existing)
    ultimately show ?thesis by (simp add: create_def create_empty_file_def)
  qed
  show ?thesis using p1 p2 p3 l' ex p4 p5 by blast
qed

theorem css_create_touch_only_witness:
  "create CSSFileCreator
     \<lparr>full_path = Path ''/'' [''app'', ''src'', ''components'', ''Button''], name = ''Button''\<rparr>
     \<lparr>nodes = [[] \<mapsto> Dir], cwd = []\<rparr> =
   Inr \<lparr>nodes = [[] \<mapsto> Dir, [''app''] \<mapsto> Dir, [''app'', ''src''] \<mapsto> Dir,
               [''app'', ''src'', ''components''] \<mapsto> Dir,
               [''app'', ''src'', ''components'', ''Button''] \<mapsto> Dir,
               [''app'', ''src'', ''components'', ''Button'', ''Button.module.css''] \<mapsto>
                 File []],
      cwd = []\<rparr> \<and>
   read_text
     \<lparr>nodes = [[] \<mapsto> Dir, [''app''] \<mapsto> Dir, [''app'', ''src''] \<mapsto> Dir,
               [''app'', ''src'', ''components''] \<mapsto> Dir,
               [''app'', ''src'', ''components'', ''Button''] \<mapsto> Dir,
               [''app'', ''src'', ''components'', ''Button'', ''Button.module.css''] \<mapsto>
                 File []],
      cwd = []\<rparr>
     (Path ''/'' [''app'', ''src'', ''components'', ''Button'', ''Button.module.css'']) =
     Inr [] \<and>
   create CSSFileCreator
     \<lparr>full_path = Path ''/'' [''app'', ''src'', ''components'', ''Button''], name = ''Button''\<rparr>
     \<lparr>nodes = [[] \<mapsto> Dir, [''app''] \<mapsto> Dir, [''app'', ''src''] \<mapsto> Dir,
               [''app'', ''src'', ''components''] \<mapsto> Dir,
               [''app'', ''src'', ''components'', ''Button''] \<mapsto> Dir,
               [''app'', ''src'', ''components'', ''Button'', ''Button.module.css''] \<mapsto>
                 File []],
      cwd = []\<rparr> =
   Inr \<lparr>nodes = [[] \<mapsto> Dir, [''app''] \<mapsto> Dir, [''app'', ''src''] \<mapsto> Dir,
               [''app'', ''src'', ''components''] \<mapsto> Dir,
               [''app'', ''src'', ''components'', ''Button''] \<mapsto> Dir,
               [''app'', ''src'', ''components'', ''Button'', ''Button.module.css''] \<mapsto>
                 File []],
      cwd = []\<rparr> \<and>
   create CSSFileCreator
     \<lparr>full_path = Path ''/'' [''app'', ''src'', ''components'', ''Button''], name = ''Button''\<rparr>
     \<lparr>nodes = [[] \<mapsto> Dir, [''app''] \<mapsto> Dir, [''app'', ''src''] \<mapsto> Dir,
               [''app'', ''src'', ''components''] \<mapsto> Dir,
               [''app'', ''src'', ''components'', ''Button''] \<mapsto> Dir,
               [''app'', ''src'', ''components'', ''Button'', ''Button.module.css''] \<mapsto>
                 File ''.button { color: red }''],
      cwd = []\<rparr> =
   Inr \<lparr>nodes = [[] \<mapsto> Dir, [''app''] \<mapsto> Dir, [''app'', ''src''] \<mapsto> Dir,
               [''app'', ''src'', ''components''] \<mapsto> Dir,
               [''app'', ''src'', ''components'', ''Button''] \<mapsto> Dir,
               [''app'', ''src'', ''components'', ''Button'', ''Button.module.css''] \<mapsto>
                 File ''.button { color: red }''],
      cwd = []\<rparr> \<and>
   read_text
     \<lparr>nodes = [[] \<mapsto> Dir, [''app''] \<mapsto> Dir, [''app'', ''src''] \<mapsto> Dir,
               [''app'', ''src'', ''components''] \<mapsto> Dir,
               [''app'', ''src'', ''components'', ''Button''] \<mapsto> Dir,
               [''app'', ''src'', ''components'', ''Button'', ''Button.module.css''] \<mapsto>
                 File ''.button { color: red }''],
      cwd = []\<rparr>
     (Path ''/'' [''app'', ''src'', ''components'', ''Button'', ''Button.module.css'']) =
     Inr ''.button { color: red }''"
  (is "create _ ?e ?fs0 = Inr ?fsB \<and> read_text ?fsB ?q = Inr [] \<and>
       create _ ?e ?fsB = Inr ?fsB \<and>
       create _ ?e ?fsC = Inr ?fsC \<and> read_text ?fsC ?q = Inr ?css")
proof -
  let ?k = "[''app'', ''src'', ''components'', ''Button'', ''Button.module.css'']"
  have q: "get_absolute_filename CSSFileCreator ?e = ?q"
    by (simp add: truediv_def parse_parts_def splitroot_def)
  have c0: "create CSSFileCreator ?e ?fs0 = Inr ?fsB"
    by (simp add: file_step_defs)
  have cC: "create CSSFileCreator ?e ?fsC = Inr ?fsC"
    by (simp add: file_step_defs)
  have rC: "read_text ?fsC (get_absolute_filename CSSFileCreator ?e) = Inr ?css"
    unfolding q by (simp add: read_text_def stat_def locate_def start_def)
  have lB: "locate ?fsB ?q = Inr ?k"
    by (simp add: locate_def start_def)
  have n0: "nodes ?fs0 ?k = None \<and> ''..'' \<notin> set (names ?q)"
    by simp
  from css_create_touch_only [OF c0, unfolded q]
  obtain k where k: "locate ?fsB ?q = Inr k"
    and made: "nodes ?fs0 k = None \<and> ''..'' \<notin> set (names ?q) \<longrightarrow> nodes ?fsB k = Some (File [])"
    and again: "create CSSFileCreator ?e ?fsB = Inr ?fsB"
    by blast
  from k lB have "k = ?k" by simp
  with made n0 have "nodes ?fsB ?k = Some (File [])" by blast
  with lB have "read_text ?fsB ?q = Inr (universal_newlines [])" by (rule read_textI)
  then have r0: "read_text ?fsB ?q = Inr []" by simp
  have "read_text ?fsC ?q = Inr ?css"
    using css_create_touch_only [OF cC] rC unfolding q by blast
  then show ?thesis using c0 r0 again cC by blast
qed

text \<open>
  Claim C4 as the specification states it fails: for the element that the parser makes
  of \<open>Foo.module.css/../Foo\<close> nothing is stored at the style file before; \<open>create\<close>
  returns, and at the style file there is then a directory, made by the creator's own
  \<open>mkdir\<close>, not an empty file.
\<close>

theorem css_create_touch_only_counterexample:
  "parse_as_element (Path ''/'' [''app'', ''src'']) ''Foo.module.css/../Foo'' Components =
     \<lparr>full_path = Path ''/'' [''app'', ''src'', ''components'', ''Foo.module.css'', ''..''],
      name = ''Foo''\<rparr> \<and>
   get_absolute_filename CSSFileCreator
     \<lparr>full_path = Path ''/'' [''app'', ''src'', ''components'', ''Foo.module.css'', ''..''],
      name = ''Foo''\<rparr> =
     Path ''/'' [''app'', ''src'', ''components'', ''Foo.module.css'', ''..'', ''Foo.module.css''] \<and>
   stat \<lparr>nodes = [[] \<mapsto> Dir], cwd = []\<rparr>
     (Path ''/'' [''app'', ''src'', ''components'', ''Foo.module.css'', ''..'', ''Foo.module.css'']) =
     Inl FileNotFoundError \<and>
   create CSSFileCreator
     \<lparr>full_path = Path ''/'' [''app'', ''src'', ''components'', ''Foo.module.css'', ''..''],
      name = ''Foo''\<rparr>
     \<lparr>nodes = [[] \<mapsto> Dir], cwd = []\<rparr> =
   Inr \<lparr>nodes = [[] \<mapsto> Dir, [''app''] \<mapsto> Dir, [''app'', ''src''] \<mapsto> Dir,
               [''app'', ''src'', ''components''] \<mapsto> Dir,
               [''app'', ''src'', ''components'', ''Foo.module.css''] \<mapsto> Dir],
        cwd = []\<rparr> \<and>
   read_text
     \<lparr>nodes = [[] \<mapsto> Dir, [''app''] \<mapsto> Dir, [''app'', ''src''] \<mapsto> Dir,
               [''app'', ''src'', ''components''] \<mapsto> Dir,
               [''app'', ''src'', ''components'', ''Foo.module.css''] \<mapsto> Dir],
      cwd = []\<rparr>
     (Path ''/'' [''app'', ''src'', ''components'', ''Foo.module.css'', ''..'', ''Foo.module.css'']) =
     Inl IsADirectoryError"
  by (simp add: file_step_defs parse_as_element_def Let_def)


section \<open>Returning with an existing directory, and the category prompt\<close>

text \<open>
  The three creators return whenever the directory of the file exists and the file's
  path is not a directory: the conditions under which the properties of \<open>create\<close>
  above speak of a result.
\<close>

theorem create_returns:
  "stat fs (parent (get_absolute_filename fc e)) = Inr Dir \<Longrightarrow>
   stat fs (get_absolute_filename fc e) \<noteq> Inr Dir \<Longrightarrow>
   \<exists>fs'. create fc e fs = Inr fs'"
proof -
  let ?q = "get_absolute_filename fc e"
  assume pd: "stat fs (parent ?q) = Inr Dir" and nd: "stat fs ?q \<noteq> Inr Dir"
  have m: "mkdir_parents fs (parent ?q) = Inr fs" using pd by (rule mkdir_parents_existing)
  show ?thesis using m pd nd by (rule create_after_mkdir)
qed

theorem create_returns_witness:
  "\<exists>fs'. create TSXFileCreator
     \<lparr>full_path = Path ''/'' [''app''], name = ''Button''\<rparr>
     \<lparr>nodes = [[] \<mapsto> Dir, [''app''] \<mapsto> Dir], cwd = []\<rparr> = Inr fs'"
proof -
  let ?e = "\<lparr>full_path = Path ''/'' [''app''], name = ''Button''\<rparr>"
  let ?fs = "\<lparr>nodes = [[] \<mapsto> Dir, [''app''] \<mapsto> Dir], cwd = []\<rparr>"
  have q: "get_absolute_filename TSXFileCreator ?e = Path ''/'' [''app'', ''Button.tsx'']"
    by (simp add: truediv_def parse_parts_def splitroot_def)
  have a: "stat ?fs (parent (get_absolute_filename TSXFileCreator ?e)) = Inr Dir"
    unfolding q by (simp add: stat_def locate_def start_def parent_def)
  have b: "stat ?fs (get_absolute_filename TSXFileCreator ?e) \<noteq> Inr Dir"
    unfolding q by (simp add: stat_def locate_def start_def)
  show ?thesis using create_returns [OF a b] .
qed

text \<open>
  The category prompt returns as soon as a line it knows arrives, after any number of
  lines it does not know, each answered with the error message.
\<close>

theorem ask_base_folder_returns:
  "(\<forall>x\<in>set junk. strip x \<notin> {''c'', ''C'', ''p'', ''P''}) \<Longrightarrow>
   strip s \<in> {''c'', ''C''} \<Longrightarrow>
   ask_base_folder \<lparr>stdin = map Line junk @- (Line s ## rest), shown = out\<rparr> =
     Some (Inr Components,
       \<lparr>stdin = rest,
        shown = out @ concat (map (\<lambda>x. [BaseFolderPrompt, NotUnderstood]) junk) @
                [BaseFolderPrompt]\<rparr>)"
proof (induction junk arbitrary: out)
  case Nil
  then show ?case by (simp add: ask_base_folder_Line lower_eq_c)
next
  case (Cons x junk)
  from Cons.prems(1) have x: "lower (strip x) \<noteq> ''c''" "lower (strip x) \<noteq> ''p''"
    by (simp_all add: lower_eq_c lower_eq_p)
  from Cons.prems(1) have rest: "\<forall>x\<in>set junk. strip x \<notin> {''c'', ''C'', ''p'', ''P''}"
    by simp
  show ?case
    using Cons.IH [OF rest Cons.prems(2), of "out @ [BaseFolderPrompt, NotUnderstood]"] x
    by (simp add: ask_base_folder_Line)
qed

theorem ask_base_folder_returns_witness:
  "ask_base_folder
     \<lparr>stdin = Line ''x'' ## Line ''components'' ## Line ''C'' ## sconst EndOfInput, shown = []\<rparr> =
   Some (Inr Components,
     \<lparr>stdin = sconst EndOfInput,
      shown = [BaseFolderPrompt, NotUnderstood, BaseFolderPrompt, NotUnderstood,
               BaseFolderPrompt]\<rparr>)"
proof -
  have a: "\<forall>x\<in>set [''x'', ''components'']. strip x \<notin> {''c'', ''C'', ''p'', ''P''}"
    by (simp add: strip_def isspace_def)
  have b: "strip ''C'' \<in> {''c'', ''C''}" by (simp add: strip_def isspace_def)
  show ?thesis
    using ask_base_folder_returns [OF a b, of "sconst EndOfInput" "[]"] by simp
qed


end
